theory Spec2Isabelle
  imports Main "HOL-Library.Sublist" "HOL-Library.AList"
begin

section \<open>Strings\<close>

text \<open>
  A JavaScript string is a sequence of UTF-16 code units. The model is \<^typ>\<open>string\<close>: a
  \<^typ>\<open>char\<close> stands for the code unit of the same number, so the strings covered are the
  ones whose code units lie below 256. Every pattern and every constant the program matches
  against is ASCII.
\<close>

text \<open>White space of \<^verbatim>\<open>\s\<close>, \<^verbatim>\<open>trim\<close> and \<^verbatim>\<open>trimStart\<close>:
  TAB, LF, VT, FF, CR, SP, NBSP (the further members are code units above 255).\<close>

definition is_space :: "char \<Rightarrow> bool" where
  "is_space c = ((of_char c :: nat) \<in> {9, 10, 11, 12, 13, 32, 160})"

text \<open>\<^verbatim>\<open>\w\<close> is \<^verbatim>\<open>[A-Za-z0-9_]\<close>.\<close>

definition is_word :: "char \<Rightarrow> bool" where
  "is_word c = (let n = (of_char c :: nat) in
     (48 \<le> n \<and> n \<le> 57) \<or> (65 \<le> n \<and> n \<le> 90) \<or> n = 95 \<or> (97 \<le> n \<and> n \<le> 122))"

definition is_digit :: "char \<Rightarrow> bool" where
  "is_digit c = (let n = (of_char c :: nat) in 48 \<le> n \<and> n \<le> 57)"

definition digit_val :: "char \<Rightarrow> nat" where
  "digit_val c = of_char c - 48"

text \<open>Line terminators (what \<^verbatim>\<open>.\<close> refuses, and where \<^verbatim>\<open>^\<close> and \<^verbatim>\<open>$\<close> hold under the
  \<^verbatim>\<open>m\<close> flag): LF and CR (U+2028 and U+2029 are above 255).\<close>

definition is_line_terminator :: "char \<Rightarrow> bool" where
  "is_line_terminator c = (c = CHR 0x0A \<or> c = CHR 0x0D)"

text \<open>Canonicalize of a pattern with the \<^verbatim>\<open>i\<close> flag and without \<^verbatim>\<open>u\<close>: the upper-case
  code unit, where that is one code unit; within the code units below 256 only a-z and the
  accented lower-case letters E0-FE (F7, the division sign, apart) have an upper-case
  partner below 256, 32 places before them.\<close>

definition lower_case :: string where
  "lower_case = ''abcdefghijklmnopqrstuvwxyz'' @
     [CHR 0xE0, CHR 0xE1, CHR 0xE2, CHR 0xE3, CHR 0xE4, CHR 0xE5, CHR 0xE6, CHR 0xE7,
      CHR 0xE8, CHR 0xE9, CHR 0xEA, CHR 0xEB, CHR 0xEC, CHR 0xED, CHR 0xEE, CHR 0xEF,
      CHR 0xF0, CHR 0xF1, CHR 0xF2, CHR 0xF3, CHR 0xF4, CHR 0xF5, CHR 0xF6, CHR 0xF8,
      CHR 0xF9, CHR 0xFA, CHR 0xFB, CHR 0xFC, CHR 0xFD, CHR 0xFE]"

definition upper_case :: string where
  "upper_case = ''ABCDEFGHIJKLMNOPQRSTUVWXYZ'' @
     [CHR 0xC0, CHR 0xC1, CHR 0xC2, CHR 0xC3, CHR 0xC4, CHR 0xC5, CHR 0xC6, CHR 0xC7,
      CHR 0xC8, CHR 0xC9, CHR 0xCA, CHR 0xCB, CHR 0xCC, CHR 0xCD, CHR 0xCE, CHR 0xCF,
      CHR 0xD0, CHR 0xD1, CHR 0xD2, CHR 0xD3, CHR 0xD4, CHR 0xD5, CHR 0xD6, CHR 0xD8,
      CHR 0xD9, CHR 0xDA, CHR 0xDB, CHR 0xDC, CHR 0xDD, CHR 0xDE]"

definition canonicalize :: "char \<Rightarrow> char" where
  "canonicalize c = (case map_of (zip lower_case upper_case) c of None \<Rightarrow> c | Some u \<Rightarrow> u)"

definition startsWith :: "string \<Rightarrow> string \<Rightarrow> bool" where
  "startsWith s p = prefix p s"

definition endsWith :: "string \<Rightarrow> string \<Rightarrow> bool" where
  "endsWith s p = suffix p s"

definition trimStart :: "string \<Rightarrow> string" where
  "trimStart s = dropWhile is_space s"

definition trimEnd :: "string \<Rightarrow> string" where
  "trimEnd s = rev (dropWhile is_space (rev s))"

definition trim :: "string \<Rightarrow> string" where
  "trim s = trimEnd (trimStart s)"

text \<open>\<^verbatim>\<open>s.slice(start, end)\<close>: a negative index counts from the end; both are clamped.\<close>

definition slice :: "string \<Rightarrow> int \<Rightarrow> int \<Rightarrow> string" where
  "slice s start end =
     (let len = int (length s);
          from = (if start < 0 then max (len + start) 0 else min start len);
          to = (if end < 0 then max (len + end) 0 else min end len)
      in take (nat (to - from)) (drop (nat from) s))"

text \<open>\<^verbatim>\<open>s.split(sep)\<close> for a separator of one character: never the empty list.\<close>

fun split :: "char \<Rightarrow> string \<Rightarrow> string list" where
  "split sep [] = [[]]"
| "split sep (c # cs) =
     (if c = sep then [] # split sep cs
      else (case split sep cs of [] \<Rightarrow> [[c]] | l # ls \<Rightarrow> (c # l) # ls))"

text \<open>\<^verbatim>\<open>lines.join(sep)\<close>\<close>

fun join :: "string \<Rightarrow> string list \<Rightarrow> string" where
  "join sep [] = []"
| "join sep [l] = l"
| "join sep (l # ls) = l @ sep @ join sep ls"

section \<open>Regular expressions\<close>

text \<open>
  The program's text processing is written with regular expressions, and what it does
  depends on the backtracking order of the matcher (greedy and lazy quantifiers, captures,
  lookahead). Patterns are therefore data, written as the source writes them, and one
  matcher, following the pattern semantics of the language specification, runs them.

  A class is the set of characters inside \<^verbatim>\<open>[...]\<close>; \<open>CNeg\<close> is the complement of a class
  escape (\<^verbatim>\<open>\S\<close> is \<open>CNeg CSpace\<close>).
\<close>

datatype cclass = CChars string | CRange char char | CSpace | CWord
  | CUnion cclass cclass | CNeg cclass

fun in_class :: "cclass \<Rightarrow> char \<Rightarrow> bool" where
  "in_class (CChars s) c = (c \<in> set s)"
| "in_class (CRange lo hi) c = ((of_char lo :: nat) \<le> of_char c \<and> (of_char c :: nat) \<le> of_char hi)"
| "in_class CSpace c = is_space c"
| "in_class CWord c = is_word c"
| "in_class (CUnion a b) c = (in_class a c \<or> in_class b c)"
| "in_class (CNeg a) c = (\<not> in_class a c)"

text \<open>
  \<open>Sym k\<close> is \<^verbatim>\<open>[k]\<close> (or a class escape on its own), \<open>NSym k\<close> is \<^verbatim>\<open>[^k]\<close>, \<open>Dot\<close> is
  \<^verbatim>\<open>.\<close>, \<open>Str s\<close> is a run of literal characters, \<open>Cat\<close> and \<open>Or\<close> are sequence and
  \<^verbatim>\<open>|\<close>, \<open>Rep greedy min max r\<close> is a quantifier (\<open>max = None\<close> for no bound), \<open>Grp n r\<close>
  is the \<open>n\<close>-th capturing group, \<open>Bol\<close>, \<open>Eol\<close> and \<open>Wb\<close> are \<^verbatim>\<open>^\<close>, \<^verbatim>\<open>$\<close> and
  \<^verbatim>\<open>\b\<close>, \<open>Ahead r\<close> is \<^verbatim>\<open>(?=r)\<close>. A group without capture \<^verbatim>\<open>(?:r)\<close> is \<open>r\<close>.
\<close>

datatype regex = Eps | Sym cclass | NSym cclass | Dot | Str string
  | Cat regex regex | Or regex regex
  | Rep bool nat "nat option" regex | Grp nat regex
  | Bol | Eol | Wb | Ahead regex

abbreviation Star :: "regex \<Rightarrow> regex" where "Star r \<equiv> Rep True 0 None r"
abbreviation Plus :: "regex \<Rightarrow> regex" where "Plus r \<equiv> Rep True 1 None r"
abbreviation Opt :: "regex \<Rightarrow> regex" where "Opt r \<equiv> Rep True 0 (Some 1) r"
abbreviation LazyStar :: "regex \<Rightarrow> regex" where "LazyStar r \<equiv> Rep False 0 None r"

text \<open>\<^verbatim>\<open>[\s\S]\<close>\<close>

abbreviation AnyChar :: regex where "AnyChar \<equiv> Sym (CUnion CSpace (CNeg CSpace))"

text \<open>\<^verbatim>\<open>[\w-]\<close>\<close>

abbreviation WordDash :: regex where "WordDash \<equiv> Sym (CUnion CWord (CChars ''-''))"

fun seq :: "regex list \<Rightarrow> regex" where
  "seq [] = Eps"
| "seq [r] = r"
| "seq (r # rs) = Cat r (seq rs)"

fun alts :: "regex list \<Rightarrow> regex" where
  "alts [] = Eps"
| "alts [r] = r"
| "alts (r # rs) = Or r (alts rs)"

text \<open>The number of capturing groups of a pattern.\<close>

fun ngroups :: "regex \<Rightarrow> nat" where
  "ngroups (Cat a b) = ngroups a + ngroups b"
| "ngroups (Or a b) = ngroups a + ngroups b"
| "ngroups (Rep g mn mx r) = ngroups r"
| "ngroups (Grp n r) = Suc (ngroups r)"
| "ngroups (Ahead r) = ngroups r"
| "ngroups _ = 0"

text \<open>
  A matcher state: \<open>seen\<close> is the input before the current position, last character first;
  \<open>rest\<close> is the input from the current position on; \<open>caps\<close> are the captures so far.
\<close>

record mstate =
  seen :: string
  rest :: string
  caps :: "nat \<rightharpoonup> string"

text \<open>CharacterSetMatcher: with the \<^verbatim>\<open>i\<close> flag a character matches the set when some member
  has the same canonical form.\<close>

definition class_match :: "bool \<Rightarrow> cclass \<Rightarrow> bool \<Rightarrow> char \<Rightarrow> bool" where
  "class_match ic k invert c =
     (let found = (if ic then (\<exists>a \<in> set (Enum.enum :: char list).
                                 in_class k a \<and> canonicalize a = canonicalize c)
                   else in_class k c)
      in found \<noteq> invert)"

fun str_match :: "bool \<Rightarrow> string \<Rightarrow> string \<Rightarrow> bool" where
  "str_match ic [] t = True"
| "str_match ic (c # s) [] = False"
| "str_match ic (c # s) (d # t) =
     (if (if ic then canonicalize c = canonicalize d else c = d) then str_match ic s t else False)"

definition step_char :: "mstate \<Rightarrow> mstate" where
  "step_char x = x\<lparr>seen := hd (rest x) # seen x, rest := tl (rest x)\<rparr>"

fun rsize :: "regex \<Rightarrow> nat" where
  "rsize (Cat a b) = Suc (rsize a + rsize b)"
| "rsize (Or a b) = Suc (rsize a + rsize b)"
| "rsize (Rep g mn mx r) = Suc (rsize r + mn)"
| "rsize (Grp n r) = Suc (rsize r)"
| "rsize (Ahead r) = Suc (rsize r)"
| "rsize _ = 0"

text \<open>
  \<open>ms ic ml r x\<close> lists the states in which a match of \<open>r\<close> started in \<open>x\<close> can end, in
  the order in which the backtracking matcher tries them: its first element is the match
  the matcher returns, and the later ones are what it falls back to when the rest of the
  pattern fails. \<open>ic\<close> and \<open>ml\<close> are the flags \<^verbatim>\<open>i\<close> and \<^verbatim>\<open>m\<close>.

  A quantifier follows RepeatMatcher: with \<open>min = 0\<close> an iteration that consumed nothing is
  refused; a greedy quantifier tries one more iteration before stopping, a lazy one stops
  before trying one more. No pattern of the program has a group inside a quantifier, so no
  capture is reset between iterations. A lookahead keeps the position, keeps the captures
  of the first match of its body, and is not re-entered.
\<close>

function ms :: "bool \<Rightarrow> bool \<Rightarrow> regex \<Rightarrow> mstate \<Rightarrow> mstate list" where
  "ms ic ml Eps x = [x]"
| "ms ic ml (Sym k) x =
     (case rest x of [] \<Rightarrow> [] | c # cs \<Rightarrow> if class_match ic k False c then [step_char x] else [])"
| "ms ic ml (NSym k) x =
     (case rest x of [] \<Rightarrow> [] | c # cs \<Rightarrow> if class_match ic k True c then [step_char x] else [])"
| "ms ic ml Dot x =
     (case rest x of [] \<Rightarrow> [] | c # cs \<Rightarrow> if is_line_terminator c then [] else [step_char x])"
| "ms ic ml (Str s) x =
     (if str_match ic s (rest x)
      then [x\<lparr>seen := rev (take (length s) (rest x)) @ seen x, rest := drop (length s) (rest x)\<rparr>]
      else [])"
| "ms ic ml (Cat a b) x = concat (map (ms ic ml b) (ms ic ml a x))"
| "ms ic ml (Or a b) x = ms ic ml a x @ ms ic ml b x"
| "ms ic ml (Rep g mn mx r) x =
     (if mx = Some 0 then [x]
      else if 0 < mn then
        concat (map (ms ic ml (Rep g (mn - 1) (map_option (\<lambda>k. k - 1) mx) r)) (ms ic ml r x))
      else if g then
        concat (map (\<lambda>y. if length (rest y) < length (rest x)
                         then ms ic ml (Rep g 0 (map_option (\<lambda>k. k - 1) mx) r) y else [])
                    (ms ic ml r x)) @ [x]
      else
        x # concat (map (\<lambda>y. if length (rest y) < length (rest x)
                         then ms ic ml (Rep g 0 (map_option (\<lambda>k. k - 1) mx) r) y else [])
                    (ms ic ml r x)))"
| "ms ic ml (Grp n r) x =
     map (\<lambda>y. y\<lparr>caps := (caps y)(n \<mapsto> take (length (rest x) - length (rest y)) (rest x))\<rparr>)
         (ms ic ml r x)"
| "ms ic ml Bol x =
     (if seen x = [] \<or> (ml \<and> is_line_terminator (hd (seen x))) then [x] else [])"
| "ms ic ml Eol x =
     (if rest x = [] \<or> (ml \<and> is_line_terminator (hd (rest x))) then [x] else [])"
| "ms ic ml Wb x =
     (if (case seen x of [] \<Rightarrow> False | c # _ \<Rightarrow> is_word c)
         \<noteq> (case rest x of [] \<Rightarrow> False | c # _ \<Rightarrow> is_word c) then [x] else [])"
| "ms ic ml (Ahead r) x = (case ms ic ml r x of [] \<Rightarrow> [] | y # _ \<Rightarrow> [x\<lparr>caps := caps y\<rparr>])"
  by pat_completeness auto
termination
  by (relation "inv_image (less_than <*lex*> less_than) (\<lambda>(ic, ml, r, x). (rsize r, length (rest x)))")
     auto

text \<open>A regular expression object: the pattern and its flags \<^verbatim>\<open>i\<close> and \<^verbatim>\<open>m\<close> (the flag
  \<^verbatim>\<open>g\<close> is the choice between \<open>replace_first\<close> and \<open>replace_all\<close> below).\<close>

record RegExp =
  pat :: regex
  ignoreCase :: bool
  multiline :: bool

definition re :: "regex \<Rightarrow> RegExp" where
  "re r = \<lparr>pat = r, ignoreCase = False, multiline = False\<rparr>"

definition re_m :: "regex \<Rightarrow> RegExp" where
  "re_m r = \<lparr>pat = r, ignoreCase = False, multiline = True\<rparr>"

definition re_i :: "regex \<Rightarrow> RegExp" where
  "re_i r = \<lparr>pat = r, ignoreCase = True, multiline = False\<rparr>"

text \<open>The first match of the pattern at the position \<open>(sn, rst)\<close>.\<close>

definition match_at :: "RegExp \<Rightarrow> string \<Rightarrow> string \<Rightarrow> mstate option" where
  "match_at rx sn rst =
     (case ms (ignoreCase rx) (multiline rx) (pat rx) \<lparr>seen = sn, rest = rst, caps = Map.empty\<rparr> of
        [] \<Rightarrow> None | y # _ \<Rightarrow> Some y)"

text \<open>A match result: the text before the match, the matched text, the text after it, and
  the captures (\<open>None\<close> is \<^verbatim>\<open>undefined\<close>).\<close>

record rmatch =
  m_pre :: string
  m_text :: string
  m_post :: string
  m_caps :: "nat \<rightharpoonup> string"

definition mk_match :: "string \<Rightarrow> string \<Rightarrow> mstate \<Rightarrow> rmatch" where
  "mk_match sn rst y =
     (let n = length rst - length (rest y)
      in \<lparr>m_pre = rev sn, m_text = take n rst, m_post = drop n rst, m_caps = caps y\<rparr>)"

text \<open>RegExpBuiltinExec: the match is tried at the start position and then at each later
  one, the end of the input included.\<close>

fun re_exec :: "RegExp \<Rightarrow> string \<Rightarrow> string \<Rightarrow> rmatch option" where
  "re_exec rx sn [] = map_option (mk_match sn []) (match_at rx sn [])"
| "re_exec rx sn (c # cs) =
     (case match_at rx sn (c # cs) of
        Some y \<Rightarrow> Some (mk_match sn (c # cs) y)
      | None \<Rightarrow> re_exec rx (c # sn) cs)"

text \<open>\<^verbatim>\<open>s.match(rx)\<close> for a pattern without \<^verbatim>\<open>g\<close>, and \<^verbatim>\<open>rx.test(s)\<close>.\<close>

definition match :: "string \<Rightarrow> RegExp \<Rightarrow> rmatch option" where
  "match s rx = re_exec rx [] s"

definition test :: "RegExp \<Rightarrow> string \<Rightarrow> bool" where
  "test rx s = (re_exec rx [] s \<noteq> None)"

text \<open>
  GetSubstitution: the replacement text of a match for a replacement string. \<^verbatim>\<open>$$\<close> is a
  dollar, \<^verbatim>\<open>$&\<close> the match, \<^verbatim>\<open>$`\<close> the text before it, \<^verbatim>\<open>$'\<close> the text after it,
  \<^verbatim>\<open>$n\<close> and \<^verbatim>\<open>$nn\<close> the capture of that number when the pattern has that many groups (a
  two-digit number beyond the groups is read as one digit); anything else is literal. \<open>m\<close>
  is the number of groups of the pattern.
\<close>

definition capture :: "rmatch \<Rightarrow> nat \<Rightarrow> string" where
  "capture mt i = (case m_caps mt i of None \<Rightarrow> [] | Some v \<Rightarrow> v)"

fun expand :: "nat \<Rightarrow> rmatch \<Rightarrow> string \<Rightarrow> string" where
  "expand m mt [] = []"
| "expand m mt [c] = [c]"
| "expand m mt (c # d # t) =
     (if c \<noteq> CHR ''$'' then c # expand m mt (d # t)
      else if d = CHR ''$'' then CHR ''$'' # expand m mt t
      else if d = CHR ''&'' then m_text mt @ expand m mt t
      else if d = CHR 0x60 then m_pre mt @ expand m mt t
      else if d = CHR 0x27 then m_post mt @ expand m mt t
      else if is_digit d then
        (case t of
           e # t' \<Rightarrow>
             if is_digit e \<and> 10 * digit_val d + digit_val e \<le> m then
               (if 1 \<le> 10 * digit_val d + digit_val e
                then capture mt (10 * digit_val d + digit_val e) @ expand m mt t'
                else c # d # e # expand m mt t')
             else if 1 \<le> digit_val d \<and> digit_val d \<le> m
               then capture mt (digit_val d) @ expand m mt t
               else c # d # expand m mt t
         | [] \<Rightarrow>
             if 1 \<le> digit_val d \<and> digit_val d \<le> m
               then capture mt (digit_val d)
               else [c, d])
      else c # expand m mt (d # t))"

text \<open>\<^verbatim>\<open>s.replace(rx, template)\<close> for a pattern without \<^verbatim>\<open>g\<close>: the first match only.\<close>

definition replace_first :: "RegExp \<Rightarrow> string \<Rightarrow> string \<Rightarrow> string" where
  "replace_first rx template s =
     (case re_exec rx [] s of
        None \<Rightarrow> s
      | Some mt \<Rightarrow> m_pre mt @ expand (ngroups (pat rx)) mt template @ m_post mt)"

text \<open>
  \<^verbatim>\<open>s.replace(rx, template)\<close> for a pattern with \<^verbatim>\<open>g\<close>: every match from left to right,
  each search starting where the last match ended (one character further after an empty
  match); the input between the matches is copied. \<open>sn\<close> is the input before the current
  position, last character first.
\<close>

fun replace_from :: "RegExp \<Rightarrow> string \<Rightarrow> string \<Rightarrow> string \<Rightarrow> string" where
  "replace_from rx template sn [] =
     (case match_at rx sn [] of
        None \<Rightarrow> []
      | Some y \<Rightarrow> expand (ngroups (pat rx)) (mk_match sn [] y) template)"
| "replace_from rx template sn (c # cs) =
     (case match_at rx sn (c # cs) of
        None \<Rightarrow> c # replace_from rx template (c # sn) cs
      | Some y \<Rightarrow>
          (let n = length (c # cs) - length (rest y);
               out = expand (ngroups (pat rx)) (mk_match sn (c # cs) y) template
           in if n = 0 then out @ c # replace_from rx template (c # sn) cs
              else out @ replace_from rx template (rev (take n (c # cs)) @ sn) (drop (n - 1) cs)))"

definition replace_all :: "RegExp \<Rightarrow> string \<Rightarrow> string \<Rightarrow> string" where
  "replace_all rx template s = replace_from rx template [] s"

section \<open>Constants (lib/constants.ts)\<close>

text \<open>
  \<^verbatim>\<open>
  export function prefixName(prefix: string, name: string): string {
    return prefix ? `${prefix}-${name}` : name
  }
  \<close>
  A string is truthy when it is not empty. The parameter \<^verbatim>\<open>prefix\<close> is written \<open>pfx\<close> throughout.
\<close>

definition prefixName :: "string \<Rightarrow> string \<Rightarrow> string" where
  "prefixName pfx name = (if pfx \<noteq> [] then pfx @ ''-'' @ name else name)"

definition SRC_AGENTS :: string where "SRC_AGENTS = ''agents''"
definition SRC_COMMANDS :: string where "SRC_COMMANDS = ''commands''"
definition SRC_HOOKS :: string where "SRC_HOOKS = ''hooks''"
definition SRC_MCP :: string where "SRC_MCP = ''mcp-configs''"

definition SKIP_FILES :: "string list" where
  "SKIP_FILES =
     [''commands/setup-pm.md'', ''commands/checkpoint.md'', ''commands/verify.md'',
      ''commands/learn.md'', ''commands/skill-create.md'', ''commands/instinct-status.md'',
      ''commands/instinct-import.md'', ''commands/instinct-export.md'', ''commands/evolve.md'',
      ''rules/common/hooks.md'',
      ''skills/continuous-learning'', ''skills/continuous-learning-v2'',
      ''skills/strategic-compact'', ''skills/eval-harness'', ''skills/verification-loop'',
      ''skills/iterative-retrieval'', ''skills/coding-standards'', ''skills/configure-ecc'']"

text \<open>
  \<^verbatim>\<open>/^## Model Selection Strategy[\s\S]*?(?=^## |\n$)/m\<close> and its two siblings: a section
  from its heading up to the next second-level heading or the last line break.
\<close>

definition strip_section :: "string \<Rightarrow> RegExp" where
  "strip_section heading =
     re_m (seq [Bol, Str heading, LazyStar AnyChar,
                Ahead (Or (Cat Bol (Str ''## '')) (Cat (Str ''\<newline>'') Eol))])"

definition STRIP_SECTIONS :: "(string \<times> RegExp list) list" where
  "STRIP_SECTIONS =
     [(''rules/common/performance.md'',
         [strip_section ''## Model Selection Strategy'',
          strip_section ''## Extended Thinking + Plan Mode'']),
      (''rules/common/agents.md'',
         [strip_section ''## Parallel Task Execution''])]"

definition AGENT_DESCRIPTION_OVERRIDES :: "(string \<times> string) list" where
  "AGENT_DESCRIPTION_OVERRIDES =
     [(''code-reviewer.md'',
       ''Expert code review specialist. Proactively reviews code for quality, security, and maintainability. Use immediately after writing or modifying code, when asked to review changes, or before committing.''),
      (''planner.md'',
       ''Implementation planning for complex features and architectural changes. Use when starting new features, making significant changes, or when requirements need clarification before coding.''),
      (''tdd-guide.md'',
       ''Test-driven development guide. Use when implementing features, fixing bugs, or when the user wants to write tests first. Enforces RED-GREEN-REFACTOR with 80%+ coverage.''),
      (''architect.md'',
       ''System design and architectural decisions. Use for infrastructure choices, scalability planning, database schema design, or technology selection.''),
      (''security-reviewer.md'',
       ''Security vulnerability analysis. Use before commits, when handling auth/crypto/user-input code, or when the user asks for a security review.''),
      (''build-error-resolver.md'',
       ''Fix build and compilation errors. Use when builds fail, TypeScript/compiler errors occur, or dependency issues arise.''),
      (''e2e-runner.md'',
       ''End-to-end test generation with Playwright. Use when creating E2E tests, testing user flows, or verifying critical UI paths.''),
      (''refactor-cleaner.md'',
       ''Dead code removal and refactoring. Use when cleaning up unused code, simplifying complex modules, or reducing technical debt.''),
      (''doc-updater.md'',
       ''Documentation synchronization. Use when code changes require documentation updates, or when docs are stale or missing.''),
      (''go-reviewer.md'',
       ''Go code review specialist. Use when reviewing Go code for idioms, performance, and best practices.''),
      (''go-build-resolver.md'',
       ''Fix Go build errors. Use when Go builds fail, module issues occur, or compilation errors arise.'')]"

definition TOKEN_REQUIRED_MCP_SERVERS :: "string list" where
  "TOKEN_REQUIRED_MCP_SERVERS =
     [''github'', ''gitlab'', ''bitbucket'', ''linear'', ''jira'', ''asana'', ''slack'',
      ''discord'', ''sentry'', ''datadog'', ''pagerduty'', ''stripe'', ''twilio'', ''sendgrid'',
      ''supabase'', ''firebase'', ''aws'', ''vercel'', ''netlify'', ''railway'', ''openai'',
      ''anthropic'', ''algolia'', ''elasticsearch'', ''redis'', ''mongodb'', ''postgres'',
      ''mysql'']"

text \<open>\<^verbatim>\<open>interface ContentTransform { pattern: RegExp; replace: string | ... }\<close>: every
  transform of the program has a replacement string; every pattern has the flag \<^verbatim>\<open>g\<close>.\<close>

record ContentTransform =
  pattern :: RegExp
  replace :: string

text \<open>
  \<^verbatim>\<open>
  const STATIC_TRANSFORMS: ContentTransform[] = [
    { pattern: /~\/\.claude\//g, replace: '~/.cursor/' },
    { pattern: /CLAUDE\.md/g, replace: 'project configuration' },
    { pattern: /Claude Code CLI/g, replace: 'Cursor' },
    { pattern: /Claude Code/g, replace: 'Cursor' },
    { pattern: /\bBash tool\b/g, replace: 'Shell tool' },
    { pattern: /"Bash"/g, replace: '"Shell"' },
    { pattern: /"Edit"/g, replace: '"StrReplace"' },
  ]
  \<close>
\<close>

definition STATIC_TRANSFORMS :: "ContentTransform list" where
  "STATIC_TRANSFORMS =
     [\<lparr>pattern = re (Str ''~/.claude/''), replace = ''~/.cursor/''\<rparr>,
      \<lparr>pattern = re (Str ''CLAUDE.md''), replace = ''project configuration''\<rparr>,
      \<lparr>pattern = re (Str ''Claude Code CLI''), replace = ''Cursor''\<rparr>,
      \<lparr>pattern = re (Str ''Claude Code''), replace = ''Cursor''\<rparr>,
      \<lparr>pattern = re (seq [Wb, Str ''Bash tool'', Wb]), replace = ''Shell tool''\<rparr>,
      \<lparr>pattern = re (Str ''\"Bash\"''), replace = ''\"Shell\"''\<rparr>,
      \<lparr>pattern = re (Str ''\"Edit\"''), replace = ''\"StrReplace\"''\<rparr>]"

text \<open>
  \<^verbatim>\<open>getContentTransforms(prefix)\<close>: with \<^verbatim>\<open>p = prefix ? `${prefix}-` : ''\<close>, the seven
  transforms that carry the prefix, then the static ones:
  \<^verbatim>\<open>
  /~\/\.claude\/agents\/([\w-]+)\.md/g           `~/.cursor/agents/${p}$1.md`
  /~\/\.claude\/skills\/([\w-]+)\//g             `~/.cursor/skills/${p}$1/`
  /[Uu]se (?:the )?\*\*(\w[\w-]*)\*\* agent/g    `Follow the **${p}$1** skill`
  /invokes the `(\w[\w-]*)` agent/g              `invokes the \`${p}$1\` skill`
  /`(\w[\w-]*)` agent/g                          `\`${p}$1\` skill`
  /`\/(plan|tdd|code-review|build-fix|e2e|refactor-clean|learn|checkpoint|verify|
       go-review|go-test|go-build)`/g            `\`/${p}$1\` command`
  /\/(plan|tdd|code-review|build-and-fix|build-fix|e2e|refactor-clean|go-review|go-test|
      go-build)(?=[\s,.)])/g                     `/${p}$1`
  \<close>
  The prefix is spliced into the replacement string, so a dollar sign in it is read by
  \<open>expand\<close> like any other.
\<close>

definition getContentTransforms :: "string \<Rightarrow> ContentTransform list" where
  "getContentTransforms pfx =
     (let p = (if pfx \<noteq> [] then pfx @ ''-'' else [])
      in [\<lparr>pattern = re (seq [Str ''~/.claude/agents/'', Grp 1 (Plus WordDash), Str ''.md'']),
           replace = ''~/.cursor/agents/'' @ p @ ''$1.md''\<rparr>,
          \<lparr>pattern = re (seq [Str ''~/.claude/skills/'', Grp 1 (Plus WordDash), Str ''/'']),
           replace = ''~/.cursor/skills/'' @ p @ ''$1/''\<rparr>,
          \<lparr>pattern = re (seq [Sym (CChars ''Uu''), Str ''se '', Opt (Str ''the ''), Str ''**'',
                               Grp 1 (Cat (Sym CWord) (Star WordDash)), Str ''** agent'']),
           replace = ''Follow the **'' @ p @ ''$1** skill''\<rparr>,
          \<lparr>pattern = re (seq [Str ''invokes the `'', Grp 1 (Cat (Sym CWord) (Star WordDash)),
                               Str ''` agent'']),
           replace = ''invokes the `'' @ p @ ''$1` skill''\<rparr>,
          \<lparr>pattern = re (seq [Str ''`'', Grp 1 (Cat (Sym CWord) (Star WordDash)), Str ''` agent'']),
           replace = ''`'' @ p @ ''$1` skill''\<rparr>,
          \<lparr>pattern = re (seq [Str ''`/'',
                               Grp 1 (alts [Str ''plan'', Str ''tdd'', Str ''code-review'',
                                 Str ''build-fix'', Str ''e2e'', Str ''refactor-clean'',
                                 Str ''learn'', Str ''checkpoint'', Str ''verify'',
                                 Str ''go-review'', Str ''go-test'', Str ''go-build'']),
                               Str ''`'']),
           replace = ''`/'' @ p @ ''$1` command''\<rparr>,
          \<lparr>pattern = re (seq [Str ''/'',
                               Grp 1 (alts [Str ''plan'', Str ''tdd'', Str ''code-review'',
                                 Str ''build-and-fix'', Str ''build-fix'', Str ''e2e'',
                                 Str ''refactor-clean'', Str ''go-review'', Str ''go-test'',
                                 Str ''go-build'']),
                               Ahead (Sym (CUnion CSpace (CChars '',.)'')))]),
           replace = ''/'' @ p @ ''$1''\<rparr>]
         @ STATIC_TRANSFORMS)"

section \<open>Header codec and rewrite engine (lib/transform.ts)\<close>

text \<open>
  \<^verbatim>\<open>
  export function transformContent(content, prefix, sourcePath?) {
    let result = content
    if (sourcePath) {
      const strips = STRIP_SECTIONS[sourcePath]
      if (strips) { for (const pattern of strips) { result = result.replace(pattern, '') } }
    }
    const transforms = getContentTransforms(prefix)
    for (const { pattern, replace } of transforms) {
      pattern.lastIndex = 0
      result = result.replace(pattern, replace as string)
    }
    result = result.replace(/\n{3,}/g, '\n\n')
    return result
  }
  \<close>
  The three stages are named, so that each can be spoken about on its own.
\<close>

definition strip_sections :: "string option \<Rightarrow> string \<Rightarrow> string" where
  "strip_sections sourcePath content =
     (case sourcePath of
        None \<Rightarrow> content
      | Some sp \<Rightarrow>
          if sp = [] then content
          else (case map_of STRIP_SECTIONS sp of
                  None \<Rightarrow> content
                | Some strips \<Rightarrow> foldl (\<lambda>result pattern. replace_first pattern [] result) content strips))"

definition apply_transforms :: "ContentTransform list \<Rightarrow> string \<Rightarrow> string" where
  "apply_transforms transforms content =
     foldl (\<lambda>result t. replace_all (pattern t) (replace t) result) content transforms"

text \<open>\<^verbatim>\<open>result.replace(/\n{3,}/g, '\n\n')\<close>\<close>

definition nl_runs :: RegExp where
  "nl_runs = re (Rep True 3 None (Str ''\<newline>''))"

definition collapse_blank_lines :: "string \<Rightarrow> string" where
  "collapse_blank_lines result = replace_all nl_runs ''\<newline>\<newline>'' result"

definition transformContent :: "string \<Rightarrow> string \<Rightarrow> string option \<Rightarrow> string" where
  "transformContent content pfx sourcePath =
     collapse_blank_lines
       (apply_transforms (getContentTransforms pfx) (strip_sections sourcePath content))"

text \<open>
  A JavaScript exception is a value of the model; a function that can throw returns
  \<open>js_error + 'a\<close>. \<open>TypeError\<close> is what reading a property of \<^verbatim>\<open>undefined\<close> throws.
\<close>

datatype js_error = TypeError | SyntaxError | ENOENT | ENOTDIR | EISDIR | EEXIST

text \<open>\<^verbatim>\<open>match[i]\<close>, used as a string: \<^verbatim>\<open>undefined\<close> has no string methods.\<close>

definition group :: "rmatch \<Rightarrow> nat \<Rightarrow> js_error + string" where
  "group mt i = (case m_caps mt i of None \<Rightarrow> Inl TypeError | Some v \<Rightarrow> Inr v)"

text \<open>
  \<^verbatim>\<open>
  export function parseFrontmatter(content: string) {
    const match = content.match(/^---\s*\n([\s\S]*?)\n---\s*\n?([\s\S]*)$/)
    if (!match) { return { frontmatter: {}, body: content } }
    const fmRaw = match[1]
    const body = match[2]
    const frontmatter: Record<string, string> = {}
    for (const line of fmRaw.split('\n')) {
      const kv = line.match(/^(\w[\w-]*):\s*(.*)$/)
      if (kv) {
        const key = kv[1]
        let value = kv[2].trim()
        if ((value.startsWith('"') && value.endsWith('"')) ||
            (value.startsWith("'") && value.endsWith("'"))) {
          value = value.slice(1, -1)
        }
        frontmatter[key] = value
      }
    }
    return { frontmatter, body }
  }
  \<close>
  \<open>frontmatter\<close> is a plain object: assigning to the key \<^verbatim>\<open>__proto__\<close> calls the setter
  it inherits, which ignores a string, and adds no property.
\<close>

definition frontmatter_re :: RegExp where
  "frontmatter_re =
     re (seq [Bol, Str ''---'', Star (Sym CSpace), Str ''\<newline>'',
              Grp 1 (LazyStar AnyChar), Str ''\<newline>---'',
              Star (Sym CSpace), Opt (Str ''\<newline>''), Grp 2 (Star AnyChar), Eol])"

definition kv_re :: RegExp where
  "kv_re =
     re (seq [Bol, Grp 1 (Cat (Sym CWord) (Star WordDash)), Str '':'',
              Star (Sym CSpace), Grp 2 (Star Dot), Eol])"

record Parsed =
  frontmatter :: "string \<rightharpoonup> string"
  body :: string

definition unquote :: "string \<Rightarrow> string" where
  "unquote value =
     (if (startsWith value ''\"'' \<and> endsWith value ''\"'')
         \<or> (startsWith value [CHR 0x27] \<and> endsWith value [CHR 0x27])
      then slice value 1 (- 1) else value)"

definition set_property :: "(string \<rightharpoonup> string) \<Rightarrow> string \<Rightarrow> string \<Rightarrow> (string \<rightharpoonup> string)" where
  "set_property obj key value = (if key = ''__proto__'' then obj else obj(key \<mapsto> value))"

definition parse_line :: "(string \<rightharpoonup> string) \<Rightarrow> string \<Rightarrow> js_error + (string \<rightharpoonup> string)" where
  "parse_line fm line =
     (case match line kv_re of
        None \<Rightarrow> Inr fm
      | Some kv \<Rightarrow>
          (case group kv 1 of
             Inl e \<Rightarrow> Inl e
           | Inr key \<Rightarrow>
               (case group kv 2 of
                  Inl e \<Rightarrow> Inl e
                | Inr v \<Rightarrow> Inr (set_property fm key (unquote (trim v))))))"

fun parse_lines :: "(string \<rightharpoonup> string) \<Rightarrow> string list \<Rightarrow> js_error + (string \<rightharpoonup> string)" where
  "parse_lines fm [] = Inr fm"
| "parse_lines fm (line # lines) =
     (case parse_line fm line of Inl e \<Rightarrow> Inl e | Inr fm' \<Rightarrow> parse_lines fm' lines)"

definition parseFrontmatter :: "string \<Rightarrow> js_error + Parsed" where
  "parseFrontmatter content =
     (case match content frontmatter_re of
        None \<Rightarrow> Inr \<lparr>frontmatter = Map.empty, body = content\<rparr>
      | Some mt \<Rightarrow>
          (case group mt 1 of
             Inl e \<Rightarrow> Inl e
           | Inr fmRaw \<Rightarrow>
               (case group mt 2 of
                  Inl e \<Rightarrow> Inl e
                | Inr rest_text \<Rightarrow>
                    (case parse_lines Map.empty (split CHR 0x0A fmRaw) of
                       Inl e \<Rightarrow> Inl e
                     | Inr fm \<Rightarrow> Inr \<lparr>frontmatter = fm, body = rest_text\<rparr>))))"

text \<open>
  \<^verbatim>\<open>
  export function buildFrontmatter(fields: Record<string, string | boolean>): string {
    const lines = ['---']
    for (const [key, value] of Object.entries(fields)) {
      if (typeof value === 'boolean') { lines.push(`${key}: ${value}`) }
      else {
        const flat = value.replace(/\n+/g, ' ').trim()
        lines.push(`${key}: ${flat}`)
      }
    }
    lines.push('---')
    return lines.join('\n')
  }
  \<close>
  The argument is the list \<^verbatim>\<open>Object.entries(fields)\<close>.
\<close>

datatype field_value = S string | B bool

definition flatten :: "string \<Rightarrow> string" where
  "flatten value = trim (replace_all (re (Plus (Str ''\<newline>''))) '' '' value)"

fun field_line :: "string \<times> field_value \<Rightarrow> string" where
  "field_line (key, B b) = key @ '': '' @ (if b then ''true'' else ''false'')"
| "field_line (key, S value) = key @ '': '' @ flatten value"

definition buildFrontmatter :: "(string \<times> field_value) list \<Rightarrow> string" where
  "buildFrontmatter entries = join ''\<newline>'' ([''---''] @ map field_line entries @ [''---''])"

section \<open>The file system\<close>

text \<open>
  The translators, the scanner and the clean operation act on the file system through
  \<^verbatim>\<open>node:fs\<close> and \<^verbatim>\<open>node:path\<close>. A path is its list of components; the file system is a
  table from the paths that exist to what is there, a regular file with its text or a
  directory. The root \<open>[]\<close> is a directory. Every call fails the way the platform makes it
  fail, with the error as a value.
\<close>

type_synonym path = "string list"

datatype node = File string | Dir

type_synonym filesystem = "(path \<times> node) list"

text \<open>\<^verbatim>\<open>join(dir, name)\<close>: the components of \<open>name\<close> are appended, \<^verbatim>\<open>.\<close> and empty
  components dropped and \<^verbatim>\<open>..\<close> resolved.\<close>

definition norm_step :: "path \<Rightarrow> string \<Rightarrow> path" where
  "norm_step p seg =
     (if seg = [] \<or> seg = ''.'' then p else if seg = ''..'' then butlast p else p @ [seg])"

definition path_join :: "path \<Rightarrow> string \<Rightarrow> path" where
  "path_join dir name = foldl norm_step dir (split CHR ''/'' name)"

definition lookup :: "filesystem \<Rightarrow> path \<Rightarrow> node option" where
  "lookup fs p = (if p = [] then Some Dir else map_of fs p)"

definition existsSync :: "filesystem \<Rightarrow> path \<Rightarrow> bool" where
  "existsSync fs p = (lookup fs p \<noteq> None)"

definition children :: "filesystem \<Rightarrow> path \<Rightarrow> string list" where
  "children fs dir = [last q. (q, n) \<leftarrow> fs, q \<noteq> [] \<and> butlast q = dir]"

text \<open>\<^verbatim>\<open>readdir(dir)\<close> and \<^verbatim>\<open>readdirSync(dir)\<close>\<close>

definition readdir :: "filesystem \<Rightarrow> path \<Rightarrow> js_error + string list" where
  "readdir fs dir =
     (case lookup fs dir of
        None \<Rightarrow> Inl ENOENT
      | Some (File _) \<Rightarrow> Inl ENOTDIR
      | Some Dir \<Rightarrow> Inr (children fs dir))"

text \<open>\<^verbatim>\<open>readFile(p, 'utf-8')\<close>\<close>

definition readFile :: "filesystem \<Rightarrow> path \<Rightarrow> js_error + string" where
  "readFile fs p =
     (case lookup fs p of
        None \<Rightarrow> Inl ENOENT
      | Some Dir \<Rightarrow> Inl EISDIR
      | Some (File text) \<Rightarrow> Inr text)"

text \<open>\<^verbatim>\<open>mkdir(p, { recursive: true })\<close>: every missing directory on the way is created; a
  regular file on the way is an error.\<close>

fun mkdirs :: "filesystem \<Rightarrow> path \<Rightarrow> string list \<Rightarrow> js_error + filesystem" where
  "mkdirs fs pre [] = Inr fs"
| "mkdirs fs pre (c # cs) =
     (case lookup fs (pre @ [c]) of
        Some (File _) \<Rightarrow> Inl (if cs = [] then EEXIST else ENOTDIR)
      | Some Dir \<Rightarrow> mkdirs fs (pre @ [c]) cs
      | None \<Rightarrow> mkdirs (fs @ [(pre @ [c], Dir)]) (pre @ [c]) cs)"

definition mkdir :: "filesystem \<Rightarrow> path \<Rightarrow> js_error + filesystem" where
  "mkdir fs p = mkdirs fs [] p"

text \<open>\<^verbatim>\<open>writeFile(p, text, 'utf-8')\<close>: the directory of \<open>p\<close> must exist; a file there is
  replaced.\<close>

definition writeFile :: "filesystem \<Rightarrow> path \<Rightarrow> string \<Rightarrow> js_error + filesystem" where
  "writeFile fs p text =
     (if p = [] then Inl EISDIR
      else (case lookup fs (butlast p) of
              None \<Rightarrow> Inl ENOENT
            | Some (File _) \<Rightarrow> Inl ENOTDIR
            | Some Dir \<Rightarrow>
                (case lookup fs p of
                   Some Dir \<Rightarrow> Inl EISDIR
                 | _ \<Rightarrow> Inr (AList.update p (File text) fs))))"

text \<open>\<^verbatim>\<open>rm(p, { recursive, force: true })\<close>: nothing there is no error; a directory goes
  with all it holds when \<open>recursive\<close>, and is an error otherwise.\<close>

definition rm :: "filesystem \<Rightarrow> path \<Rightarrow> bool \<Rightarrow> js_error + filesystem" where
  "rm fs p recursive =
     (case lookup fs p of
        None \<Rightarrow> Inr fs
      | Some (File _) \<Rightarrow> Inr (AList.delete p fs)
      | Some Dir \<Rightarrow>
          if recursive then Inr (filter (\<lambda>(q, n). \<not> prefix p q) fs) else Inl EISDIR)"

section \<open>Target context (lib/context.ts)\<close>

record TargetContext =
  cursorDir :: path
  skillsDir :: path
  agentsDir :: path
  commandsDir :: path
  mcpFile :: path

definition createContext :: "path \<Rightarrow> TargetContext" where
  "createContext dir =
     \<lparr>cursorDir = dir,
      skillsDir = path_join dir ''skills'',
      agentsDir = path_join dir ''agents'',
      commandsDir = path_join dir ''commands'',
      mcpFile = path_join dir ''mcp.json''\<rparr>"

section \<open>Installed-set scanner (lib/scanner.ts)\<close>

text \<open>
  \<^verbatim>\<open>
  function scanDir(dir: string, prefix: string): string[] {
    if (!prefix || !existsSync(dir)) return []
    try { return readdirSync(dir).filter((f) => f.startsWith(`${prefix}-`)) }
    catch { return [] }
  }
  \<close>
\<close>

definition scanDir :: "filesystem \<Rightarrow> path \<Rightarrow> string \<Rightarrow> string list" where
  "scanDir fs dir pfx =
     (if pfx = [] \<or> \<not> existsSync fs dir then []
      else (case readdir fs dir of
              Inl e \<Rightarrow> []
            | Inr names \<Rightarrow> filter (\<lambda>f. startsWith f (pfx @ ''-'')) names))"

text \<open>\<^verbatim>\<open>interface ScanResult { cursorDir; skills; agents; commands; totalFiles }\<close>\<close>

record ScanResult =
  scanned :: path
  skills :: "string list"
  agents :: "string list"
  commands :: "string list"
  totalFiles :: nat

definition scanDirectory :: "filesystem \<Rightarrow> path \<Rightarrow> string \<Rightarrow> ScanResult" where
  "scanDirectory fs dir pfx =
     (let ctx = createContext dir;
          sk = scanDir fs (skillsDir ctx) pfx;
          ag = scanDir fs (agentsDir ctx) pfx;
          co = scanDir fs (commandsDir ctx) pfx
      in \<lparr>scanned = dir, skills = sk, agents = ag, commands = co,
          totalFiles = length sk + length ag + length co\<rparr>)"

section \<open>Clean (sync.ts)\<close>

text \<open>\<^verbatim>\<open>interface CleanResult { skills; agents; commands; totalRemoved }\<close>\<close>

record CleanResult =
  removedSkills :: "string list"
  removedAgents :: "string list"
  removedCommands :: "string list"
  totalRemoved :: nat

text \<open>
  \<^verbatim>\<open>for (const d of names) { await rm(join(dir, d), { recursive, force: true }); list.push(d) }\<close>
  An operation that changes the file system returns the file system it leaves behind
  together with its result or the error that ended it.
\<close>

fun rm_each :: "filesystem \<Rightarrow> path \<Rightarrow> bool \<Rightarrow> string list \<Rightarrow> string list
    \<Rightarrow> filesystem \<times> (js_error + string list)" where
  "rm_each fs dir recursive [] removed = (fs, Inr removed)"
| "rm_each fs dir recursive (d # ds) removed =
     (case rm fs (path_join dir d) recursive of
        Inl e \<Rightarrow> (fs, Inl e)
      | Inr fs' \<Rightarrow> rm_each fs' dir recursive ds (removed @ [d]))"

text \<open>
  \<^verbatim>\<open>
  if (existsSync(dir)) {
    const names = readdirSync(dir).filter((d) => d.startsWith(prefixPattern))
    for (const d of names) { ... }
  }
  \<close>
\<close>

definition clean_dir :: "filesystem \<Rightarrow> path \<Rightarrow> bool \<Rightarrow> string
    \<Rightarrow> filesystem \<times> (js_error + string list)" where
  "clean_dir fs dir recursive prefixPattern =
     (if existsSync fs dir then
        (case readdir fs dir of
           Inl e \<Rightarrow> (fs, Inl e)
         | Inr names \<Rightarrow>
             rm_each fs dir recursive (filter (\<lambda>d. startsWith d prefixPattern) names) [])
      else (fs, Inr []))"

text \<open>
  \<^verbatim>\<open>
  export async function runClean(ctx: TargetContext, prefix: string): Promise<CleanResult> {
    const result = { skills: [], agents: [], commands: [], totalRemoved: 0 }
    if (!prefix) return result
    const prefixPattern = `${prefix}-`
    ... skill directories (recursive), agent files, command files ...
    result.totalRemoved = result.skills.length + result.agents.length + result.commands.length
    return result
  }
  \<close>
\<close>

definition runClean :: "filesystem \<Rightarrow> TargetContext \<Rightarrow> string
    \<Rightarrow> filesystem \<times> (js_error + CleanResult)" where
  "runClean fs ctx pfx =
     (if pfx = [] then
        (fs, Inr \<lparr>removedSkills = [], removedAgents = [], removedCommands = [], totalRemoved = 0\<rparr>)
      else
        (let prefixPattern = pfx @ ''-'' in
         case clean_dir fs (skillsDir ctx) True prefixPattern of
           (fs1, Inl e) \<Rightarrow> (fs1, Inl e)
         | (fs1, Inr sk) \<Rightarrow>
             (case clean_dir fs1 (agentsDir ctx) False prefixPattern of
                (fs2, Inl e) \<Rightarrow> (fs2, Inl e)
              | (fs2, Inr ag) \<Rightarrow>
                  (case clean_dir fs2 (commandsDir ctx) False prefixPattern of
                     (fs3, Inl e) \<Rightarrow> (fs3, Inl e)
                   | (fs3, Inr co) \<Rightarrow>
                       (fs3, Inr \<lparr>removedSkills = sk, removedAgents = ag, removedCommands = co,
                                  totalRemoved = length sk + length ag + length co\<rparr>)))))"

section \<open>Hook translator (lib/translators/hooks.ts)\<close>

text \<open>The curated guideline documents. The one character of their text beyond ASCII, the
  dash U+2014 in the last document, is written as the three bytes that \<^verbatim>\<open>writeFile\<close> with
  \<^verbatim>\<open>'utf-8'\<close> puts into the file.\<close>

record ExtractedRule =
  filename :: string
  title :: string
  content :: string

definition no_console_log_content :: string where
  "no_console_log_content = concat
       [''# No console.log in Production Code\<newline>'',
        ''\<newline>'',
        ''Remove all `console.log` statements before committing.\<newline>'',
        ''\<newline>'',
        ''## Why\<newline>'',
        ''- Clutters production output\<newline>'',
        ''- May leak sensitive data\<newline>'',
        ''- Indicates incomplete debugging\<newline>'',
        ''\<newline>'',
        ''## Instead\<newline>'',
        ''- Use a proper logger (e.g., `winston`, `pino`) for server-side logging\<newline>'',
        ''- Use conditional debug logging: `if (process.env.NODE_ENV === 'development')`\<newline>'',
        ''- Remove debug logs entirely before committing\<newline>'',
        ''\<newline>'',
        ''## Checklist\<newline>'',
        ''- [ ] No `console.log` in committed code\<newline>'',
        ''- [ ] Use structured logging for production\<newline>'',
        ''- [ ] Debug logging gated behind environment check\<newline>'']"

definition review_before_push_content :: string where
  "review_before_push_content = concat
       [''# Review Changes Before Pushing\<newline>'',
        ''\<newline>'',
        ''Always review your changes before pushing to remote.\<newline>'',
        ''\<newline>'',
        ''## Before `git push`\<newline>'',
        ''1. Run `git diff` to review unstaged changes\<newline>'',
        ''2. Run `git diff --staged` to review staged changes\<newline>'',
        ''3. Run `git log --oneline -5` to verify commit history\<newline>'',
        ''4. Ensure no secrets, debug code, or incomplete work is included\<newline>'',
        ''\<newline>'',
        ''## Checklist\<newline>'',
        ''- [ ] All changes are intentional\<newline>'',
        ''- [ ] No hardcoded secrets or API keys\<newline>'',
        ''- [ ] No console.log or debug statements\<newline>'',
        ''- [ ] Commit messages follow conventional format\<newline>'',
        ''- [ ] Tests pass locally\<newline>'']"

definition minimal_docs_content :: string where
  "minimal_docs_content = concat
       [''# Minimal Documentation Files\<newline>'',
        ''\<newline>'',
        ''Avoid creating unnecessary documentation files. Consolidate documentation in existing files.\<newline>'',
        ''\<newline>'',
        ''## Guidelines\<newline>'',
        ''- Use the project's README.md for documentation\<newline>'',
        ''- Don't create random .md or .txt files for notes\<newline>'',
        ''- Keep documentation close to the code it describes\<newline>'',
        ''- Use code comments for implementation details\<newline>'',
        ''- Use JSDoc/docstrings for API documentation\<newline>'',
        ''\<newline>'',
        ''## Acceptable documentation files\<newline>'',
        ''- README.md '' @ [CHR 0xE2, CHR 0x80, CHR 0x94] @ '' project overview\<newline>'',
        ''- CONTRIBUTING.md '' @ [CHR 0xE2, CHR 0x80, CHR 0x94] @ '' contribution guidelines\<newline>'',
        ''- CHANGELOG.md '' @ [CHR 0xE2, CHR 0x80, CHR 0x94] @ '' version history\<newline>'',
        ''- API documentation generated from code\<newline>'']"

definition EXTRACTED_RULES :: "ExtractedRule list" where
  "EXTRACTED_RULES =
     [\<lparr>filename = ''no-console-log.md'', title = ''No console.log in Production Code'',
       content = no_console_log_content\<rparr>,
      \<lparr>filename = ''review-before-push.md'', title = ''Review Changes Before Pushing'',
       content = review_before_push_content\<rparr>,
      \<lparr>filename = ''minimal-docs.md'', title = ''Minimal Documentation Files'',
       content = minimal_docs_content\<rparr>]"

text \<open>
  \<^verbatim>\<open>
  for (const rule of EXTRACTED_RULES) {
    const targetRel = `skills/${codingStdSkillName}/rules/${rule.filename}`
    if (!dryRun) { await writeFile(join(codingStdRulesDir, rule.filename), rule.content, 'utf-8') }
    filesWritten.push(targetRel)
  }
  \<close>
\<close>

fun write_rules :: "filesystem \<Rightarrow> path \<Rightarrow> string \<Rightarrow> bool \<Rightarrow> ExtractedRule list \<Rightarrow> string list
    \<Rightarrow> filesystem \<times> (js_error + string list)" where
  "write_rules fs codingStdRulesDir codingStdSkillName dryRun [] filesWritten =
     (fs, Inr filesWritten)"
| "write_rules fs codingStdRulesDir codingStdSkillName dryRun (rule # rules) filesWritten =
     (let targetRel = ''skills/'' @ codingStdSkillName @ ''/rules/'' @ filename rule in
      case (if dryRun then Inr fs
            else writeFile fs (path_join codingStdRulesDir (filename rule)) (content rule)) of
        Inl e \<Rightarrow> (fs, Inl e)
      | Inr fs' \<Rightarrow>
          write_rules fs' codingStdRulesDir codingStdSkillName dryRun rules
            (filesWritten @ [targetRel]))"

text \<open>
  \<^verbatim>\<open>
  export async function translateHooks(repoDir, ctx, prefix, dryRun): Promise<string[]> {
    const hooksFile = join(repoDir, SRC_HOOKS, 'hooks.json')
    const filesWritten: string[] = []
    if (!existsSync(hooksFile)) { return filesWritten }
    const codingStdSkillName = prefixName(prefix, 'coding-standards')
    const codingStdRulesDir = join(ctx.skillsDir, codingStdSkillName, 'rules')
    if (!dryRun) { await mkdir(codingStdRulesDir, { recursive: true }) }
    for (const rule of EXTRACTED_RULES) { ... }
    return filesWritten
  }
  \<close>
\<close>

definition translateHooks :: "filesystem \<Rightarrow> path \<Rightarrow> TargetContext \<Rightarrow> string \<Rightarrow> bool
    \<Rightarrow> filesystem \<times> (js_error + string list)" where
  "translateHooks fs repoDir ctx pfx dryRun =
     (let hooksFile = path_join (path_join repoDir SRC_HOOKS) ''hooks.json'' in
      if \<not> existsSync fs hooksFile then (fs, Inr [])
      else
        (let codingStdSkillName = prefixName pfx ''coding-standards'';
             codingStdRulesDir = path_join (path_join (skillsDir ctx) codingStdSkillName) ''rules''
         in case (if dryRun then Inr fs else mkdir fs codingStdRulesDir) of
              Inl e \<Rightarrow> (fs, Inl e)
            | Inr fs' \<Rightarrow>
                write_rules fs' codingStdRulesDir codingStdSkillName dryRun EXTRACTED_RULES []))"

section \<open>Agent translator (lib/translators/agents.ts)\<close>

text \<open>\<^verbatim>\<open>a || b\<close> on strings that may be \<^verbatim>\<open>undefined\<close>: the first when it is a non-empty
  string.\<close>

definition or_else :: "string option \<Rightarrow> string \<Rightarrow> string" where
  "or_else a b = (case a of None \<Rightarrow> b | Some v \<Rightarrow> if v = [] then b else v)"

text \<open>\<^verbatim>\<open>file.replace(/\.md$/, '')\<close>\<close>

definition strip_md :: "string \<Rightarrow> string" where
  "strip_md file = replace_first (re (Cat (Str ''.md'') Eol)) [] file"

text \<open>
  \<^verbatim>\<open>
  for (const file of files) {
    const sourcePath = `${SRC_AGENTS}/${file}`
    if (SKIP_FILES.has(sourcePath)) continue
    const raw = await readFile(join(srcDir, file), 'utf-8')
    const { frontmatter, body } = parseFrontmatter(raw)
    const name = prefixName(prefix, frontmatter.name || file.replace(/\.md$/, ''))
    const description = AGENT_DESCRIPTION_OVERRIDES[file] || frontmatter.description || ''
    const newFm = buildFrontmatter({ name, description })
    const transformedBody = transformContent(body, prefix, sourcePath)
    const content = `${newFm}\n\n${transformedBody.trimStart()}`
    const targetRel = `agents/${name}.md`
    const targetFull = join(ctx.agentsDir, `${name}.md`)
    if (!dryRun) { await writeFile(targetFull, content, 'utf-8') }
    filesWritten.push(targetRel)
  }
  \<close>
\<close>

fun agents_loop :: "filesystem \<Rightarrow> path \<Rightarrow> TargetContext \<Rightarrow> string \<Rightarrow> bool \<Rightarrow> string list
    \<Rightarrow> string list \<Rightarrow> filesystem \<times> (js_error + string list)" where
  "agents_loop fs srcDir ctx pfx dryRun [] filesWritten = (fs, Inr filesWritten)"
| "agents_loop fs srcDir ctx pfx dryRun (file # files) filesWritten =
     (let sourcePath = SRC_AGENTS @ ''/'' @ file in
      if sourcePath \<in> set SKIP_FILES then agents_loop fs srcDir ctx pfx dryRun files filesWritten
      else
        (case readFile fs (path_join srcDir file) of
           Inl e \<Rightarrow> (fs, Inl e)
         | Inr raw \<Rightarrow>
             (case parseFrontmatter raw of
                Inl e \<Rightarrow> (fs, Inl e)
              | Inr parsed \<Rightarrow>
                  (let nm = prefixName pfx (or_else (frontmatter parsed ''name'') (strip_md file));
                       descr = or_else (map_of AGENT_DESCRIPTION_OVERRIDES file)
                                 (or_else (frontmatter parsed ''description'') []);
                       newFm = buildFrontmatter [(''name'', S nm), (''description'', S descr)];
                       transformedBody = transformContent (body parsed) pfx (Some sourcePath);
                       text = newFm @ ''\<newline>\<newline>'' @ trimStart transformedBody;
                       targetRel = ''agents/'' @ nm @ ''.md'';
                       targetFull = path_join (agentsDir ctx) (nm @ ''.md'')
                   in case (if dryRun then Inr fs else writeFile fs targetFull text) of
                        Inl e \<Rightarrow> (fs, Inl e)
                      | Inr fs' \<Rightarrow>
                          agents_loop fs' srcDir ctx pfx dryRun files (filesWritten @ [targetRel])))))"

text \<open>
  \<^verbatim>\<open>
  export async function translateAgents(repoDir, ctx, prefix, dryRun): Promise<string[]> {
    const srcDir = join(repoDir, SRC_AGENTS)
    const filesWritten: string[] = []
    let files: string[]
    try { files = (await readdir(srcDir)).filter((f) => f.endsWith('.md')) }
    catch { return filesWritten }
    await mkdir(ctx.agentsDir, { recursive: true })
    for (const file of files) { ... }
    return filesWritten
  }
  \<close>
\<close>

definition translateAgents :: "filesystem \<Rightarrow> path \<Rightarrow> TargetContext \<Rightarrow> string \<Rightarrow> bool
    \<Rightarrow> filesystem \<times> (js_error + string list)" where
  "translateAgents fs repoDir ctx pfx dryRun =
     (let srcDir = path_join repoDir SRC_AGENTS in
      case readdir fs srcDir of
        Inl e \<Rightarrow> (fs, Inr [])
      | Inr names \<Rightarrow>
          (let files = filter (\<lambda>f. endsWith f ''.md'') names in
           case mkdir fs (agentsDir ctx) of
             Inl e \<Rightarrow> (fs, Inl e)
           | Inr fs' \<Rightarrow> agents_loop fs' srcDir ctx pfx dryRun files []))"

section \<open>Service registry merger (lib/translators/mcp.ts)\<close>

text \<open>A JSON value; a number is kept as its decimal text, an object as the list of its
  properties in their order.\<close>

datatype json = JNull | JBool bool | JNum string | JStr string
  | JArr "json list" | JObj "(string \<times> json) list"

text \<open>\<^verbatim>\<open>JSON.stringify(value)\<close>, without indentation.\<close>

definition hex_digit :: "nat \<Rightarrow> char" where
  "hex_digit n = ''0123456789abcdef'' ! n"

definition quote_char :: "char \<Rightarrow> string" where
  "quote_char c =
     (if c = CHR 0x08 then [CHR 0x5C, CHR ''b'']
      else if c = CHR 0x09 then [CHR 0x5C, CHR ''t'']
      else if c = CHR 0x0A then [CHR 0x5C, CHR ''n'']
      else if c = CHR 0x0C then [CHR 0x5C, CHR ''f'']
      else if c = CHR 0x0D then [CHR 0x5C, CHR ''r'']
      else if c = CHR 0x22 then [CHR 0x5C, CHR 0x22]
      else if c = CHR 0x5C then [CHR 0x5C, CHR 0x5C]
      else if (of_char c :: nat) < 32
        then [CHR 0x5C, CHR ''u'', CHR ''0'', CHR ''0'',
              hex_digit (of_char c div 16), hex_digit (of_char c mod 16)]
      else [c])"

definition quote_json :: "string \<Rightarrow> string" where
  "quote_json s = ''\"'' @ concat (map quote_char s) @ ''\"''"

fun stringify :: "json \<Rightarrow> string" where
  "stringify JNull = ''null''"
| "stringify (JBool b) = (if b then ''true'' else ''false'')"
| "stringify (JNum n) = n"
| "stringify (JStr s) = quote_json s"
| "stringify (JArr vs) = ''['' @ join '','' (map stringify vs) @ '']''"
| "stringify (JObj ps) =
     ''{'' @ join '','' (map (\<lambda>(k, v). quote_json k @ '':'' @ stringify v) ps) @ ''}''"

text \<open>
  \<^verbatim>\<open>interface ServerConfig { command?, args?, env?, description?, [key: string]: unknown }\<close>:
  an object, as the list of its properties.
\<close>

type_synonym ServerConfig = "(string \<times> json) list"

text \<open>
  \<^verbatim>\<open>
  function requiresAuth(serverConfig: ServerConfig): boolean {
    const json = JSON.stringify(serverConfig)
    const authPatterns = [ /api[_-]?key/i, /token/i, /secret/i, /password/i, /auth/i,
      /bearer/i, /credentials/i, /\$\{[^}]*\}/, /process\.env\./, /YOUR_[A-Z_]+/,
      /\/path\/to\// ]
    for (const pattern of authPatterns) { if (pattern.test(json)) return true }
    if (serverConfig.env && Object.keys(serverConfig.env).length > 0) {
      const envKeys = Object.keys(serverConfig.env)
      const authEnvPatterns = /key|token|secret|password|auth|api/i
      if (envKeys.some((k) => authEnvPatterns.test(k))) return true
    }
    return false
  }
  \<close>
  \<^verbatim>\<open>env\<close> is declared an object of strings.
\<close>

definition authPatterns :: "RegExp list" where
  "authPatterns =
     [re_i (seq [Str ''api'', Opt (Sym (CChars ''_-'')), Str ''key'']),
      re_i (Str ''token''), re_i (Str ''secret''), re_i (Str ''password''), re_i (Str ''auth''),
      re_i (Str ''bearer''), re_i (Str ''credentials''),
      re (seq [Str ''${'', Star (NSym (CChars ''}'')), Str ''}'']),
      re (Str ''process.env.''),
      re (seq [Str ''YOUR_'', Plus (Sym (CUnion (CRange CHR ''A'' CHR ''Z'') (CChars ''_'')))]),
      re (Str ''/path/to/'')]"

definition authEnvPatterns :: RegExp where
  "authEnvPatterns =
     re_i (alts [Str ''key'', Str ''token'', Str ''secret'', Str ''password'', Str ''auth'',
                 Str ''api''])"

definition requiresAuth :: "ServerConfig \<Rightarrow> bool" where
  "requiresAuth serverConfig =
     (let json = stringify (JObj serverConfig) in
      if \<exists>rx \<in> set authPatterns. test rx json then True
      else (case map_of serverConfig ''env'' of
              Some (JObj envProps) \<Rightarrow>
                envProps \<noteq> [] \<and> (\<exists>k \<in> set (map fst envProps). test authEnvPatterns k)
            | _ \<Rightarrow> False))"

text \<open>\<^verbatim>\<open>interface AvailableServer { name: string; description: string; config: ServerConfig }\<close>\<close>

record AvailableServer =
  name :: string
  description :: string
  config :: ServerConfig

text \<open>
  A JSON file as the program reads it: absent (\<open>NoDir\<close> when even its directory is
  absent), not a regular file, not JSON, or a document. The document of both JSON files of
  the program is an object with an optional \<^verbatim>\<open>mcpServers\<close> object of server objects and
  further properties.
\<close>

datatype 'a json_file = NoDir | NoFile | NotAFile | BadJson | Doc 'a

record McpDoc =
  servers :: "(string \<times> ServerConfig) list option"
  others :: "(string \<times> json) list"

text \<open>
  \<^verbatim>\<open>
  export async function getAvailableServers(repoDir: string): Promise<AvailableServer[]> {
    const srcFile = join(repoDir, SRC_MCP, 'mcp-servers.json')
    if (!existsSync(srcFile)) return []
    const srcRaw = await readFile(srcFile, 'utf-8')
    const srcConfig = JSON.parse(srcRaw)
    const srcServers: Record<string, ServerConfig> = srcConfig.mcpServers || {}
    const available: AvailableServer[] = []
    for (const [name, serverConfig] of Object.entries(srcServers)) {
      if (TOKEN_REQUIRED_MCP_SERVERS.has(name)) continue
      if (requiresAuth(serverConfig)) continue
      available.push({ name, description: serverConfig.description || '', config: serverConfig })
    }
    return available
  }
  \<close>
  The argument is the file \<^verbatim>\<open>mcp-configs/mcp-servers.json\<close> of the source tree. The keys of
  an object are distinct: \<open>object_entries\<close> keeps, as \<^verbatim>\<open>JSON.parse\<close> does, one property per key, at
  the key's first place and with its last value.
\<close>

fun object_entries :: "(string \<times> 'v) list \<Rightarrow> (string \<times> 'v) list" where
  "object_entries [] = []"
| "object_entries ((k, v) # ps) =
     (k, (case map_of (rev ps) k of None \<Rightarrow> v | Some v' \<Rightarrow> v'))
       # object_entries (filter (\<lambda>(k', v'). k' \<noteq> k) ps)"

definition description_of :: "ServerConfig \<Rightarrow> string" where
  "description_of serverConfig =
     (case map_of serverConfig ''description'' of Some (JStr d) \<Rightarrow> d | _ \<Rightarrow> [])"

definition getAvailableServers :: "McpDoc json_file \<Rightarrow> js_error + AvailableServer list" where
  "getAvailableServers srcFile =
     (case srcFile of
        NoDir \<Rightarrow> Inr []
      | NoFile \<Rightarrow> Inr []
      | NotAFile \<Rightarrow> Inl EISDIR
      | BadJson \<Rightarrow> Inl SyntaxError
      | Doc srcConfig \<Rightarrow>
          (let srcServers = (case servers srcConfig of None \<Rightarrow> [] | Some ps \<Rightarrow> object_entries ps)
           in Inr (map (\<lambda>(nm, serverConfig).
                          \<lparr>name = nm, description = description_of serverConfig,
                           config = serverConfig\<rparr>)
                     (filter (\<lambda>(nm, serverConfig).
                                nm \<notin> set TOKEN_REQUIRED_MCP_SERVERS \<and> \<not> requiresAuth serverConfig)
                        srcServers))))"

text \<open>\<^verbatim>\<open>type McpSelection = 'none' | 'all' | string[]\<close> (sync.ts)\<close>

datatype McpSelection = SelNone | SelAll | SelNames "string list"

text \<open>
  \<^verbatim>\<open>
  function resolveSelectedServers(available, selection) {
    if (selection === 'none') return []
    if (selection === 'all') return available
    const nameSet = new Set(selection)
    return available.filter((s) => nameSet.has(s.name))
  }
  \<close>
\<close>

fun resolveSelectedServers :: "AvailableServer list \<Rightarrow> McpSelection \<Rightarrow> AvailableServer list" where
  "resolveSelectedServers available SelNone = []"
| "resolveSelectedServers available SelAll = available"
| "resolveSelectedServers available (SelNames selection) =
     (let nameSet = set selection in filter (\<lambda>s. name s \<in> nameSet) available)"

text \<open>
  \<^verbatim>\<open>
  async function readMcpConfig(mcpFile: string): Promise<McpConfig> {
    if (!existsSync(mcpFile)) return { mcpServers: {} }
    try {
      const raw = await readFile(mcpFile, 'utf-8')
      const config = JSON.parse(raw)
      if (!config.mcpServers) config.mcpServers = {}
      return config as McpConfig
    } catch { return { mcpServers: {} } }
  }
  \<close>
\<close>

record McpConfig =
  mcpServers :: "(string \<times> ServerConfig) list"
  rest_of_config :: "(string \<times> json) list"

definition readMcpConfig :: "McpDoc json_file \<Rightarrow> McpConfig" where
  "readMcpConfig file =
     (case file of
        Doc d \<Rightarrow> \<lparr>mcpServers = (case servers d of None \<Rightarrow> [] | Some ps \<Rightarrow> object_entries ps),
                  rest_of_config = others d\<rparr>
      | _ \<Rightarrow> \<lparr>mcpServers = [], rest_of_config = []\<rparr>)"

text \<open>\<^verbatim>\<open>writeFile(mcpFile, `${JSON.stringify(config, null, 2)}\n`, 'utf-8')\<close>: the file then
  holds the document \<open>config\<close>.\<close>

definition writeMcpConfig :: "McpDoc json_file \<Rightarrow> McpConfig \<Rightarrow> js_error + McpDoc json_file" where
  "writeMcpConfig file cfg =
     (case file of
        NoDir \<Rightarrow> Inl ENOENT
      | NotAFile \<Rightarrow> Inl EISDIR
      | _ \<Rightarrow> Inr (Doc \<lparr>servers = Some (mcpServers cfg), others = rest_of_config cfg\<rparr>))"

text \<open>\<^verbatim>\<open>interface McpResult { added: number; skipped: number; updatedSelection }\<close>\<close>

record McpResult =
  added :: nat
  skipped :: nat
  updatedSelection :: McpSelection

text \<open>
  \<^verbatim>\<open>cursorMcp.mcpServers[server.name]\<close> is read as a truth value. A server is an object,
  which is truthy, so the test is whether the object has the property; the properties every
  object inherits are there, too.
\<close>

definition Object_prototype :: "string list" where
  "Object_prototype =
     [''constructor'', ''__defineGetter__'', ''__defineSetter__'', ''hasOwnProperty'',
      ''__lookupGetter__'', ''__lookupSetter__'', ''isPrototypeOf'', ''propertyIsEnumerable'',
      ''toString'', ''valueOf'', ''__proto__'', ''toLocaleString'']"

definition has_server :: "(string \<times> ServerConfig) list \<Rightarrow> string \<Rightarrow> bool" where
  "has_server ps nm = (map_of ps nm \<noteq> None \<or> nm \<in> set Object_prototype)"

text \<open>
  \<^verbatim>\<open>
  const cleanConfig = { ...server.config }
  delete cleanConfig.description
  if (cleanConfig.command === 'npx') { cleanConfig.command = 'bunx' }
  \<close>
\<close>

definition cleanConfig :: "ServerConfig \<Rightarrow> ServerConfig" where
  "cleanConfig cfg =
     (let c = filter (\<lambda>(k, v). k \<noteq> ''description'') cfg
      in if map_of c ''command'' = Some (JStr ''npx'')
         then AList.update ''command'' (JStr ''bunx'') c else c)"

text \<open>
  \<^verbatim>\<open>
  for (const server of toInstall) {
    if (cursorMcp.mcpServers[server.name]) { skipped++; continue }
    const cleanConfig = ...
    if (!dryRun) { cursorMcp.mcpServers[server.name] = cleanConfig }
    added++
  }
  \<close>
\<close>

fun install :: "bool \<Rightarrow> AvailableServer list \<Rightarrow> McpConfig \<Rightarrow> nat \<Rightarrow> nat
    \<Rightarrow> McpConfig \<times> nat \<times> nat" where
  "install dryRun [] cursorMcp n_added n_skipped = (cursorMcp, n_added, n_skipped)"
| "install dryRun (server # toInstall) cursorMcp n_added n_skipped =
     (if has_server (mcpServers cursorMcp) (name server)
      then install dryRun toInstall cursorMcp n_added (n_skipped + 1)
      else install dryRun toInstall
             (if dryRun then cursorMcp
              else cursorMcp\<lparr>mcpServers :=
                     AList.update (name server) (cleanConfig (config server)) (mcpServers cursorMcp)\<rparr>)
             (n_added + 1) n_skipped)"

text \<open>
  \<^verbatim>\<open>
  export async function translateMcp(repoDir, ctx, dryRun, selection): Promise<McpResult> {
    const available = await getAvailableServers(repoDir)
    if (available.length === 0) { return { added: 0, skipped: 0, updatedSelection: selection } }
    if (selection === 'none') { return { added: 0, skipped: 0, updatedSelection: selection } }
    const toInstall = resolveSelectedServers(available, selection)
    const cursorMcp = await readMcpConfig(ctx.mcpFile)
    let added = 0
    let skipped = 0
    for (const server of toInstall) { ... }
    if (!dryRun && added > 0) { await writeMcpConfig(ctx.mcpFile, cursorMcp) }
    return { added, skipped, updatedSelection: selection }
  }
  \<close>
  \<open>srcFile\<close> is the source tree's \<^verbatim>\<open>mcp-servers.json\<close> and \<open>regFile\<close> the target's
  \<^verbatim>\<open>mcp.json\<close>; the result is the target file afterwards and what the call returns.
\<close>

definition translateMcp :: "McpDoc json_file \<Rightarrow> McpDoc json_file \<Rightarrow> bool \<Rightarrow> McpSelection
    \<Rightarrow> McpDoc json_file \<times> (js_error + McpResult)" where
  "translateMcp srcFile regFile dryRun selection =
     (case getAvailableServers srcFile of
        Inl e \<Rightarrow> (regFile, Inl e)
      | Inr available \<Rightarrow>
          if length available = 0
            then (regFile, Inr \<lparr>added = 0, skipped = 0, updatedSelection = selection\<rparr>)
          else if selection = SelNone
            then (regFile, Inr \<lparr>added = 0, skipped = 0, updatedSelection = selection\<rparr>)
          else
            (let toInstall = resolveSelectedServers available selection in
             case install dryRun toInstall (readMcpConfig regFile) 0 0 of
               (cursorMcp, n_added, n_skipped) \<Rightarrow>
                 if \<not> dryRun \<and> n_added > 0 then
                   (case writeMcpConfig regFile cursorMcp of
                      Inl e \<Rightarrow> (regFile, Inl e)
                    | Inr regFile' \<Rightarrow>
                        (regFile', Inr \<lparr>added = n_added, skipped = n_skipped,
                                        updatedSelection = selection\<rparr>))
                 else (regFile, Inr \<lparr>added = n_added, skipped = n_skipped,
                                     updatedSelection = selection\<rparr>)))"

section \<open>The three listable containers\<close>

text \<open>The scanner and the clean operation treat the three containers alike; the statements
  below name a container and read its directory and its part of a scan result through it.\<close>

datatype container = SkillsC | AgentsC | CommandsC

fun dir_of :: "TargetContext \<Rightarrow> container \<Rightarrow> path" where
  "dir_of ctx SkillsC = skillsDir ctx"
| "dir_of ctx AgentsC = agentsDir ctx"
| "dir_of ctx CommandsC = commandsDir ctx"

fun listed :: "ScanResult \<Rightarrow> container \<Rightarrow> string list" where
  "listed r SkillsC = skills r"
| "listed r AgentsC = agents r"
| "listed r CommandsC = commands r"


section \<open>Verification\<close>

subsection \<open>Selection resolution\<close>

text \<open>
  C7. For every list \<open>A\<close> of available servers: resolving \<^verbatim>\<open>'none'\<close> gives the empty list;
  resolving \<^verbatim>\<open>'all'\<close> gives \<open>A\<close>; resolving an explicit list of names gives exactly the
  elements of \<open>A\<close> whose name is in the list, in the order of \<open>A\<close>; a name that no element of
  \<open>A\<close> carries changes nothing. The function has no error result.
\<close>

theorem resolveSelectedServers_selection:
  "resolveSelectedServers A SelNone = []
   \<and> resolveSelectedServers A SelAll = A
   \<and> resolveSelectedServers A (SelNames ns) = filter (\<lambda>s. name s \<in> set ns) A
   \<and> subseq (resolveSelectedServers A (SelNames ns)) A
   \<and> name ` set (resolveSelectedServers A (SelNames ns)) = name ` set A \<inter> set ns
   \<and> (\<forall>n. n \<notin> name ` set A \<longrightarrow>
          resolveSelectedServers A (SelNames (n # ns)) = resolveSelectedServers A (SelNames ns))"
proof -
  have unknown: "filter (\<lambda>s. name s \<in> set (n # ns)) A = filter (\<lambda>s. name s \<in> set ns) A"
    if "n \<notin> name ` set A" for n
    using that by (intro filter_cong) auto
  show ?thesis
    using unknown by (auto simp: Let_def)
qed

theorem resolveSelectedServers_selection_witness:
  "''zzz'' \<notin> name ` set [\<lparr>name = ''a'', description = [], config = []\<rparr>,
                          \<lparr>name = ''b'', description = [], config = []\<rparr>]
   \<and> resolveSelectedServers [\<lparr>name = ''a'', description = [], config = []\<rparr>,
                              \<lparr>name = ''b'', description = [], config = []\<rparr>]
         (SelNames [''zzz'', ''b''])
       = resolveSelectedServers [\<lparr>name = ''a'', description = [], config = []\<rparr>,
                                 \<lparr>name = ''b'', description = [], config = []\<rparr>]
           (SelNames [''b''])"
  using resolveSelectedServers_selection
    [of "[\<lparr>name = ''a'', description = [], config = []\<rparr>,
          \<lparr>name = ''b'', description = [], config = []\<rparr>]" "[''b'']"]
  by simp

subsection \<open>No-prefix mode\<close>

text \<open>
  C8. With the empty prefix, \<open>scanDirectory\<close> returns three empty lists and the total 0
  whatever the target holds, and \<open>runClean\<close> leaves the file system as it is and returns
  the all-empty result.
\<close>

theorem no_prefix_mode:
  "scanDirectory fs dir [] =
     \<lparr>scanned = dir, skills = [], agents = [], commands = [], totalFiles = 0\<rparr>
   \<and> runClean fs ctx [] =
       (fs, Inr \<lparr>removedSkills = [], removedAgents = [], removedCommands = [], totalRemoved = 0\<rparr>)"
  by (simp add: scanDirectory_def scanDir_def runClean_def)

subsection \<open>Naming and scanning\<close>

lemma split_no_sep: "sep \<notin> set s \<Longrightarrow> split sep s = [s]"
  by (induction s) auto

lemma path_join_single:
  "CHR ''/'' \<notin> set s \<Longrightarrow> s \<noteq> [] \<Longrightarrow> s \<noteq> ''.'' \<Longrightarrow> s \<noteq> ''..'' \<Longrightarrow> path_join d s = d @ [s]"
  by (simp add: path_join_def split_no_sep norm_step_def)

lemma prefixName_nonempty: "p \<noteq> [] \<Longrightarrow> prefixName p b = p @ ''-'' @ b"
  by (simp add: prefixName_def)

lemma prefixName_component:
  assumes "p \<noteq> []" "CHR ''/'' \<notin> set (prefixName p b)"
  shows "path_join d (prefixName p b) = d @ [prefixName p b]"
proof -
  have n: "prefixName p b = p @ ''-'' @ b" using assms by (simp add: prefixName_def)
  have "CHR ''-'' \<in> set (prefixName p b)" by (simp add: n)
  then have "prefixName p b \<noteq> []" "prefixName p b \<noteq> ''.''" "prefixName p b \<noteq> ''..''"
    by auto
  then show ?thesis using assms(2) by (rule_tac path_join_single) auto
qed

lemma children_mem: "map_of fs (d @ [n]) = Some v \<Longrightarrow> n \<in> set (children fs d)"
proof -
  assume "map_of fs (d @ [n]) = Some v"
  then have "(d @ [n], v) \<in> set fs" by (rule map_of_SomeD)
  then show ?thesis by (force simp: children_def)
qed

lemma scanDir_mem:
  assumes "lookup fs d = Some Dir"
  shows "n \<in> set (scanDir fs d q) \<longleftrightarrow> q \<noteq> [] \<and> n \<in> set (children fs d) \<and> prefix (q @ ''-'') n"
  using assms by (auto simp: scanDir_def existsSync_def readdir_def startsWith_def)

lemma lookup_append_keep: "lookup fs q = Some v \<Longrightarrow> lookup (fs @ e) q = Some v"
  by (auto simp: lookup_def map_add_Some_iff split: if_splits)

lemma mkdirs_keep: "mkdirs fs pre cs = Inr fs' \<Longrightarrow> lookup fs q = Some v \<Longrightarrow> lookup fs' q = Some v"
proof (induction cs arbitrary: fs pre)
  case Nil then show ?case by simp
next
  case (Cons c cs)
  show ?case
  proof (cases "lookup fs (pre @ [c])")
    case None
    with Cons.prems have "mkdirs (fs @ [(pre @ [c], Dir)]) (pre @ [c]) cs = Inr fs'" by simp
    moreover have "lookup (fs @ [(pre @ [c], Dir)]) q = Some v"
      using Cons.prems(2) by (rule lookup_append_keep)
    ultimately show ?thesis by (rule Cons.IH)
  next
    case (Some nd)
    with Cons.prems show ?thesis by (cases nd) (auto intro: Cons.IH)
  qed
qed

lemma mkdirs_made:
  "mkdirs fs pre cs = Inr fs' \<Longrightarrow> 0 < k \<Longrightarrow> k \<le> length cs \<Longrightarrow> lookup fs' (pre @ take k cs) = Some Dir"
proof (induction cs arbitrary: fs pre k)
  case Nil then show ?case by simp
next
  case (Cons c cs)
  obtain j where k: "k = Suc j" using Cons.prems(2) by (cases k) auto
  define fs1 where "fs1 = (case lookup fs (pre @ [c]) of None \<Rightarrow> fs @ [(pre @ [c], Dir)] | Some _ \<Rightarrow> fs)"
  have step: "mkdirs fs1 (pre @ [c]) cs = Inr fs'" and here: "lookup fs1 (pre @ [c]) = Some Dir"
    using Cons.prems(1)
    by (auto simp: fs1_def lookup_def map_add_def split: option.splits node.splits if_splits)
  show ?case
  proof (cases j)
    case 0
    then show ?thesis using k mkdirs_keep[OF step here] by simp
  next
    case (Suc i)
    then have "lookup fs' ((pre @ [c]) @ take j cs) = Some Dir"
      using Cons.IH[OF step, of j] Cons.prems(3) k by simp
    then show ?thesis using k by simp
  qed
qed

lemma mkdir_item:
  assumes "mkdir fs (d @ [n]) = Inr fs'"
  shows "lookup fs' d = Some Dir" "lookup fs' (d @ [n]) = Some Dir"
proof -
  have m: "mkdirs fs [] (d @ [n]) = Inr fs'" using assms by (simp add: mkdir_def)
  show "lookup fs' (d @ [n]) = Some Dir"
    using mkdirs_made[OF m, of "length (d @ [n])"] by simp
  show "lookup fs' d = Some Dir"
  proof (cases "d = []")
    case True then show ?thesis by (simp add: lookup_def)
  next
    case False
    then show ?thesis using mkdirs_made[OF m, of "length d"] by simp
  qed
qed

lemma lookup_update:
  "q \<noteq> [] \<Longrightarrow> lookup (AList.update q v fs) q' = (if q' = q then Some v else lookup fs q')"
  by (simp add: lookup_def update_conv')

lemma writeFile_item:
  assumes "writeFile fs (d @ [n]) text = Inr fs'"
  shows "lookup fs' d = Some Dir" "lookup fs' (d @ [n]) = Some (File text)"
proof -
  have d: "lookup fs d = Some Dir" and fs': "fs' = AList.update (d @ [n]) (File text) fs"
    using assms by (auto simp: writeFile_def split: option.splits node.splits)
  show "lookup fs' (d @ [n]) = Some (File text)" by (simp add: fs' lookup_update)
  show "lookup fs' d = Some Dir" using d by (simp add: fs' lookup_update)
qed

lemma lookup_nonroot: "lookup fs (d @ [n]) = map_of fs (d @ [n])"
  by (simp add: lookup_def)

lemma prefix_dash_free:
  "a \<notin> set xs \<Longrightarrow> a \<notin> set ys \<Longrightarrow> prefix (xs @ [a]) (ys @ a # zs) \<Longrightarrow> xs = ys"
proof (induction xs arbitrary: ys)
  case Nil then show ?case by (cases ys) auto
next
  case (Cons x xs) then show ?case by (cases ys) auto
qed

lemma scanDirectory_listed:
  "listed (scanDirectory fs root q) c = scanDir fs (dir_of (createContext root) c) q"
  by (cases c) (simp_all add: scanDirectory_def Let_def)

text \<open>
  C1 (as amended). For every non-empty prefix \<open>p\<close> and base name \<open>b\<close> whose installed name
  \<open>prefixName p b\<close> has no path separator: after an item of that name is written into one
  of the three containers (a directory made with \<open>mkdir\<close>, or a file written with
  \<open>writeFile\<close>), \<open>scanDirectory\<close> with the prefix \<open>p\<close> lists it in that container; with any
  prefix \<open>p'\<close> it lists the item exactly when \<open>p'\<close> is not empty and \<open>p'\<close> followed by a
  dash is a prefix of the installed name; so it does not list it under another prefix when
  neither prefix contains a dash.
\<close>

theorem naming_scan:
  assumes "p \<noteq> []" and "CHR ''/'' \<notin> set (prefixName p b)"
    and "mkdir fs (path_join (dir_of (createContext root) c) (prefixName p b)) = Inr fs'
         \<or> writeFile fs (path_join (dir_of (createContext root) c) (prefixName p b)) text = Inr fs'"
  shows "prefixName p b \<in> set (listed (scanDirectory fs' root p) c)
    \<and> (\<forall>p'. prefixName p b \<in> set (listed (scanDirectory fs' root p') c)
              \<longleftrightarrow> p' \<noteq> [] \<and> prefix (p' @ ''-'') (prefixName p b))
    \<and> (\<forall>p'. p' \<noteq> p \<and> CHR ''-'' \<notin> set p \<and> CHR ''-'' \<notin> set p'
              \<longrightarrow> prefixName p b \<notin> set (listed (scanDirectory fs' root p') c))"
proof -
  let ?d = "dir_of (createContext root) c" and ?n = "prefixName p b"
  have pj: "path_join ?d ?n = ?d @ [?n]" using assms(1,2) by (rule prefixName_component)
  have "lookup fs' ?d = Some Dir \<and> (\<exists>v. lookup fs' (?d @ [?n]) = Some v)"
    using assms(3) unfolding pj by (auto dest: mkdir_item writeFile_item)
  then have dir: "lookup fs' ?d = Some Dir" and child: "?n \<in> set (children fs' ?d)"
    by (auto simp: lookup_nonroot intro: children_mem)
  have iff: "?n \<in> set (listed (scanDirectory fs' root q) c) \<longleftrightarrow> q \<noteq> [] \<and> prefix (q @ ''-'') ?n" for q
    using child by (simp add: scanDirectory_listed scanDir_mem[OF dir])
  have n: "?n = p @ CHR ''-'' # b" using assms(1) by (simp add: prefixName_def)
  have "prefix (p @ ''-'') ?n" by (simp add: n)
  moreover have "q = p" if "prefix (q @ ''-'') ?n" "CHR ''-'' \<notin> set p" "CHR ''-'' \<notin> set q" for q
    using that prefix_dash_free[of "CHR ''-''" q p b] by (simp add: n)
  ultimately show ?thesis using assms(1) iff by blast
qed

theorem naming_scan_witness:
  "''ecc'' \<noteq> [] \<and> CHR ''/'' \<notin> set (prefixName ''ecc'' ''planner'')
   \<and> mkdir [] (path_join (dir_of (createContext [''t'']) SkillsC) (prefixName ''ecc'' ''planner''))
       = Inr [([''t''], Dir), ([''t'', ''skills''], Dir), ([''t'', ''skills'', ''ecc-planner''], Dir)]
   \<and> prefixName ''ecc'' ''planner''
       \<in> set (listed (scanDirectory [([''t''], Dir), ([''t'', ''skills''], Dir),
                                     ([''t'', ''skills'', ''ecc-planner''], Dir)] [''t''] ''ecc'') SkillsC)
   \<and> ''my'' \<noteq> ''ecc'' \<and> CHR ''-'' \<notin> set ''ecc'' \<and> CHR ''-'' \<notin> set ''my''
   \<and> prefixName ''ecc'' ''planner''
       \<notin> set (listed (scanDirectory [([''t''], Dir), ([''t'', ''skills''], Dir),
                                     ([''t'', ''skills'', ''ecc-planner''], Dir)] [''t''] ''my'') SkillsC)"
  (is "?n \<and> ?h \<and> ?w \<and> ?a \<and> ?d1 \<and> ?d2 \<and> ?d3 \<and> ?b")
proof -
  have n: ?n by simp
  have h: ?h by (simp add: prefixName_def)
  have w: ?w
    by (simp add: mkdir_def createContext_def path_join_def norm_step_def prefixName_def lookup_def)
  note t = naming_scan[OF n h disjI1[OF w]]
  have a: ?a using t by (rule conjunct1)
  have d1: ?d1 and d2: ?d2 and d3: ?d3 by simp_all
  have "''my'' \<noteq> ''ecc'' \<and> CHR ''-'' \<notin> set ''ecc'' \<and> CHR ''-'' \<notin> set ''my'' \<longrightarrow> ?b"
    using t[THEN conjunct2, THEN conjunct2] by (rule spec)
  then have b: ?b using d1 d2 d3 by blast
  from n h w a d1 d2 d3 b show ?thesis by (intro conjI)
qed

text \<open>
  C1 as stated fails: an item installed with the prefix \<^verbatim>\<open>a-b\<close> and the base name \<^verbatim>\<open>c\<close> is
  reported by a scan with the other prefix \<^verbatim>\<open>a\<close>.
\<close>

theorem naming_scan_counterexample:
  "''a-b'' \<noteq> [] \<and> ''a'' \<noteq> ''a-b''
   \<and> mkdir [] (path_join (skillsDir (createContext [''t''])) (prefixName ''a-b'' ''c''))
       = Inr [([''t''], Dir), ([''t'', ''skills''], Dir), ([''t'', ''skills'', ''a-b-c''], Dir)]
   \<and> prefixName ''a-b'' ''c''
       \<in> set (skills (scanDirectory [([''t''], Dir), ([''t'', ''skills''], Dir),
                                     ([''t'', ''skills'', ''a-b-c''], Dir)] [''t''] ''a''))"
  (is "?n \<and> ?d \<and> ?w \<and> ?r")
proof -
  have n: ?n by simp
  have d: ?d by simp
  have w: ?w
    by (simp add: mkdir_def createContext_def path_join_def norm_step_def prefixName_def lookup_def)
  have r: ?r
    by (simp add: createContext_def path_join_def norm_step_def prefixName_def lookup_def
      scanDirectory_def scanDir_def existsSync_def readdir_def children_def startsWith_def)
  from n d w r show ?thesis by (intro conjI)
qed


subsection \<open>Hook gating\<close>






lemma write_rules_dry:
  "write_rules fs d sk True rules acc =
     (fs, Inr (acc @ map (\<lambda>r. ''skills/'' @ sk @ ''/rules/'' @ filename r) rules))"
  by (induction rules arbitrary: acc) (simp_all add: Let_def)









subsection \<open>Merge monotonicity\<close>

lemma object_entries_keys: "fst ` set (object_entries ps) = fst ` set ps"
proof (induction ps rule: object_entries.induct)
  case 1 then show ?case by simp
next
  case (2 k v ps)
  have "fst ` set (filter (\<lambda>(k', v'). k' \<noteq> k) ps) = fst ` set ps - {k}" by force
  then show ?case using 2 by auto
qed

lemma object_entries_distinct: "distinct (map fst (object_entries ps))"
proof (induction ps rule: object_entries.induct)
  case 1 then show ?case by simp
next
  case (2 k v ps)
  have "k \<notin> fst ` set (object_entries (filter (\<lambda>(k', v'). k' \<noteq> k) ps))"
    unfolding object_entries_keys by force
  then show ?case using 2 by simp
qed










subsection \<open>Dry run\<close>

lemma agents_loop_dry: "fst (agents_loop fs srcDir ctx pfx True files written) = fs"
  by (induction files arbitrary: written)
     (auto simp: Let_def split: sum.splits)

lemma translateHooks_dry: "fst (translateHooks fs repoDir ctx pfx True) = fs"
  by (simp add: translateHooks_def write_rules_dry Let_def)

lemma translateMcp_dry: "fst (translateMcp srcFile regFile True selection) = regFile"
  by (auto simp: translateMcp_def Let_def split: sum.splits prod.splits)

lemma has_server_update:
  "n \<noteq> k \<Longrightarrow> has_server (AList.update k v ps) n = has_server ps n"
  by (simp add: has_server_def update_conv')

lemma install_dry_real_counts:
  assumes "distinct (map name toInstall)"
    and "\<forall>s \<in> set toInstall. has_server (mcpServers c1) (name s) = has_server (mcpServers c2) (name s)"
  shows "snd (install True toInstall c1 a k) = snd (install False toInstall c2 a k)"
  using assms
proof (induction toInstall arbitrary: c1 c2 a k)
  case Nil
  then show ?case by simp
next
  case (Cons server toInstall)
  show ?case
  proof (cases "has_server (mcpServers c2) (name server)")
    case True
    then show ?thesis using Cons by simp
  next
    case False
    let ?c2 = "c2\<lparr>mcpServers := AList.update (name server) (cleanConfig (config server)) (mcpServers c2)\<rparr>"
    have "has_server (mcpServers ?c2) (name s) = has_server (mcpServers c2) (name s)"
      if "s \<in> set toInstall" for s
    proof -
      have "name s \<in> name ` set toInstall" using that by (rule imageI)
      moreover have "name server \<notin> name ` set toInstall" using Cons.prems(1) by simp
      ultimately have "name s \<noteq> name server" by metis
      then show ?thesis by (simp add: has_server_update)
    qed
    then have "\<forall>s \<in> set toInstall. has_server (mcpServers c1) (name s) = has_server (mcpServers ?c2) (name s)"
      using Cons.prems(2) by simp
    moreover have "distinct (map name toInstall)" using Cons.prems by simp
    ultimately have "snd (install True toInstall c1 (a + 1) k) = snd (install False toInstall ?c2 (a + 1) k)"
      by (intro Cons.IH)
    then show ?thesis using False Cons.prems by simp
  qed
qed

lemma available_distinct:
  "getAvailableServers srcFile = Inr available \<Longrightarrow> distinct (map name available)"
proof -
  assume a: "getAvailableServers srcFile = Inr available"
  have d: "distinct (map name (map (\<lambda>(nm, serverConfig).
                          \<lparr>name = nm, description = description_of serverConfig,
                           config = serverConfig\<rparr>) (filter P ps)))"
    if "distinct (map fst ps)" for P and ps :: "(string \<times> ServerConfig) list"
  proof -
    have "name \<circ> (\<lambda>(nm, serverConfig).
                          \<lparr>name = nm, description = description_of serverConfig,
                           config = serverConfig\<rparr>) = fst"
      by (auto simp: fun_eq_iff)
    then show ?thesis using that by (simp add: distinct_map_filter)
  qed
  show ?thesis
    using a d[OF object_entries_distinct]
    by (cases srcFile) (auto simp: getAvailableServers_def Let_def split: option.splits)
qed
  
lemma resolve_distinct:
  "distinct (map name available) \<Longrightarrow> distinct (map name (resolveSelectedServers available selection))"
  by (cases selection) (simp_all add: distinct_map_filter)

lemma translateMcp_dry_real_counts:
  assumes "translateMcp srcFile regFile False selection = (regFile', Inr r)"
  shows "snd (translateMcp srcFile regFile True selection) = Inr r"
proof (cases "getAvailableServers srcFile")
  case (Inl e)
  then show ?thesis using assms by (simp add: translateMcp_def)
next
  case (Inr available)
  show ?thesis
  proof (cases "available = [] \<or> selection = SelNone")
    case True
    then show ?thesis using Inr assms by (auto simp: translateMcp_def split: if_splits)
  next
    case False
    let ?t = "resolveSelectedServers available selection"
    have "distinct (map name ?t)" using Inr by (intro resolve_distinct available_distinct)
    then have eq: "snd (install True ?t (readMcpConfig regFile) 0 0)
             = snd (install False ?t (readMcpConfig regFile) 0 0)"
      by (rule install_dry_real_counts) simp
    obtain c1 a1 s1 where i1: "install True ?t (readMcpConfig regFile) 0 0 = (c1, a1, s1)"
      by (cases "install True ?t (readMcpConfig regFile) 0 0") auto
    obtain c2 a2 s2 where i2: "install False ?t (readMcpConfig regFile) 0 0 = (c2, a2, s2)"
      by (cases "install False ?t (readMcpConfig regFile) 0 0") auto
    have as: "a1 = a2" "s1 = s2" using eq i1 i2 by auto
    show ?thesis
      using False Inr assms i1 i2 as
      by (auto simp: translateMcp_def Let_def split: sum.splits if_splits)
  qed
qed

lemma parse_planner: "parseFrontmatter ''# Planner\<newline>'' = Inr \<lparr>frontmatter = Map.empty, body = ''# Planner\<newline>''\<rparr>"
  by (simp add: parseFrontmatter_def match_def frontmatter_re_def re_def match_at_def)

lemma strip_md_planner: "strip_md ''planner.md'' = ''planner''"
  by (simp add: strip_md_def replace_first_def re_def match_at_def mk_match_def)

text \<open>
  C10. A call with \<open>dryRun = true\<close> is to leave the target as it is. The hook translator
  and the registry merger do (\<open>translateHooks_dry\<close>, \<open>translateMcp_dry\<close>), and the merger
  reports the counts that the call without \<open>dryRun\<close> reports
  (\<open>translateMcp_dry_real_counts\<close>). The
  agent translator does not: its \<^verbatim>\<open>mkdir(ctx.agentsDir, { recursive: true })\<close> stands outside
  the \<^verbatim>\<open>if (!dryRun)\<close> that guards the same call in the command translator and every write
  in its own loop. On a source tree with one agent and a target that has no \<^verbatim>\<open>agents\<close>
  directory, the dry run makes the directory (and the target root above it).
\<close>

theorem translateAgents_dry_run_makes_directory:
  "translateAgents
      [([''repo''], Dir), ([''repo'', ''agents''], Dir),
       ([''repo'', ''agents'', ''planner.md''], File ''# Planner\<newline>'')]
      [''repo''] (createContext [''t'']) ''ecc'' True
    = ([([''repo''], Dir), ([''repo'', ''agents''], Dir),
        ([''repo'', ''agents'', ''planner.md''], File ''# Planner\<newline>''),
        ([''t''], Dir), ([''t'', ''agents''], Dir)],
       Inr [''agents/ecc-planner.md''])
   \<and> \<not> existsSync
        [([''repo''], Dir), ([''repo'', ''agents''], Dir),
         ([''repo'', ''agents'', ''planner.md''], File ''# Planner\<newline>'')]
        (agentsDir (createContext [''t'']))
   \<and> existsSync
        (fst (translateAgents
           [([''repo''], Dir), ([''repo'', ''agents''], Dir),
            ([''repo'', ''agents'', ''planner.md''], File ''# Planner\<newline>'')]
           [''repo''] (createContext [''t'']) ''ecc'' True))
        (agentsDir (createContext [''t'']))"
  (is "?run \<and> ?before \<and> ?after")
proof -
  have run: ?run
    by (simp add: translateAgents_def createContext_def path_join_def norm_step_def SRC_AGENTS_def
        readdir_def lookup_def children_def endsWith_def suffix_to_prefix mkdir_def SKIP_FILES_def readFile_def
        parse_planner strip_md_planner prefixName_def or_else_def Let_def)
  have before: ?before
    by (simp add: existsSync_def lookup_def createContext_def path_join_def norm_step_def)
  have after: ?after
    unfolding run by (simp add: existsSync_def lookup_def createContext_def path_join_def norm_step_def)
  from run before after show ?thesis by (intro conjI)
qed


subsection \<open>The matcher on plain patterns\<close>

lemma str_match_prefix [simp]: "str_match False s t = prefix s t"
proof (induction s arbitrary: t)
  case Nil then show ?case by simp
next
  case (Cons c s) then show ?case by (cases t) simp_all
qed

lemmas ms_Rep = ms.simps(8)
declare ms.simps(8) [simp del]

lemma ms_Str:
  "ms False ml (Str s) x =
     (if prefix s (rest x)
      then [x\<lparr>seen := rev s @ seen x, rest := drop (length s) (rest x)\<rparr>] else [])"
  by (auto simp: prefix_def)

lemma class_match_plain: "class_match False k neg c = (in_class k c \<noteq> neg)"
  by (simp add: class_match_def)

lemma expand_plain: "CHR ''$'' \<notin> set t \<Longrightarrow> expand m mt t = t"
  by (induction m mt t rule: expand.induct) auto

lemma ms_Star:
  "ms ic ml (Star r) x =
     concat (map (\<lambda>y. if length (rest y) < length (rest x) then ms ic ml (Star r) y else [])
                 (ms ic ml r x)) @ [x]"
  by (subst ms_Rep) (simp cong: if_cong)

lemma star_char_run:
  assumes "v = [] \<or> hd v \<noteq> c"
  shows "\<exists>ys. ms False ml (Star (Str [c])) \<lparr>seen = sn, rest = replicate n c @ v, caps = cp\<rparr>
           = \<lparr>seen = replicate n c @ sn, rest = v, caps = cp\<rparr> # ys"
proof (induction n arbitrary: sn)
  case 0
  have "\<not> prefix [c] v" using assms by (cases v) auto
  then show ?case by (subst ms_Star) simp
next
  case (Suc n)
  from Suc[of "c # sn"] obtain ys where
    ih: "ms False ml (Star (Str [c])) \<lparr>seen = c # sn, rest = replicate n c @ v, caps = cp\<rparr>
       = \<lparr>seen = replicate n c @ c # sn, rest = v, caps = cp\<rparr> # ys"
    by blast
  have r: "replicate n c @ c # sn = c # replicate n c @ sn"
    by (metis append_Cons replicate_Suc replicate_app_Cons_same)
  show ?case
    by (subst ms_Star) (simp add: ih r)
qed


subsection \<open>Blank-line collapse\<close>

lemma ms_Rep_min:
  "0 < mn \<Longrightarrow> ms ic ml (Rep g mn None r) x =
     concat (map (ms ic ml (Rep g (mn - 1) None r)) (ms ic ml r x))"
  by (subst ms_Rep) simp

lemma rep3_short:
  assumes "v = [] \<or> hd v \<noteq> c" "n < 3"
  shows "ms False ml (Rep True 3 None (Str [c])) \<lparr>seen = sn, rest = replicate n c @ v, caps = cp\<rparr> = []"
proof -
  have np: "\<not> prefix [c] v" using assms(1) by (cases v) auto
  consider "n = 0" | "n = 1" | "n = 2" using assms(2) by linarith
  then show ?thesis
  proof cases
    case 1 then show ?thesis using np by (simp add: ms_Rep_min)
  next
    case 2 then show ?thesis using np by (simp add: ms_Rep_min)
  next
    case 3
    then have "replicate n c = [c, c]" by (simp add: numeral_2_eq_2)
    then show ?thesis using np by (simp add: ms_Rep_min)
  qed
qed

lemma rep3_long:
  assumes "v = [] \<or> hd v \<noteq> c" "3 \<le> n"
  shows "\<exists>ys. ms False ml (Rep True 3 None (Str [c])) \<lparr>seen = sn, rest = replicate n c @ v, caps = cp\<rparr>
           = \<lparr>seen = replicate n c @ sn, rest = v, caps = cp\<rparr> # ys"
proof -
  obtain k where n: "n = Suc (Suc (Suc k))"
    using assms(2) by (metis Suc_le_D numeral_3_eq_3 Suc_le_mono)
  from star_char_run[OF assms(1), of ml "c # c # c # sn" k cp] obtain ys where
    s: "ms False ml (Star (Str [c])) \<lparr>seen = c # c # c # sn, rest = replicate k c @ v, caps = cp\<rparr>
       = \<lparr>seen = replicate k c @ c # c # c # sn, rest = v, caps = cp\<rparr> # ys"
    by blast
  have r: "replicate k c @ c # c # c # sn = c # c # c # replicate k c @ sn"
    by (metis append_Cons replicate_Suc replicate_app_Cons_same)
  show ?thesis
    unfolding n by (simp add: ms_Rep_min s r)
qed

lemma match_at_short:
  assumes "v = [] \<or> hd v \<noteq> CHR 0x0A" "n < 3"
  shows "match_at nl_runs sn (replicate n CHR 0x0A @ v) = None"
  using rep3_short[OF assms] by (simp add: match_at_def nl_runs_def re_def)

lemma match_at_long:
  assumes "v = [] \<or> hd v \<noteq> CHR 0x0A" "3 \<le> n"
  shows "match_at nl_runs sn (replicate n CHR 0x0A @ v)
    = Some \<lparr>seen = replicate n CHR 0x0A @ sn, rest = v, caps = Map.empty\<rparr>"
proof -
  from rep3_long[OF assms, of False sn Map.empty] obtain ys where
    "ms False False (Rep True 3 None (Str ''\<newline>''))
       \<lparr>seen = sn, rest = replicate n CHR 0x0A @ v, caps = Map.empty\<rparr>
     = \<lparr>seen = replicate n CHR 0x0A @ sn, rest = v, caps = Map.empty\<rparr> # ys" by blast
  then show ?thesis by (simp add: match_at_def nl_runs_def re_def)
qed

declare replace_from.simps [simp del]

lemma collapse_other:
  "c \<noteq> CHR 0x0A \<Longrightarrow> replace_from nl_runs t sn (c # s) = c # replace_from nl_runs t (c # sn) s"
  using match_at_short[of "c # s" 0 sn] by (simp add: replace_from.simps)

lemma collapse_end: "replace_from nl_runs t sn [] = []"
  using match_at_short[of "[]" 0 sn] by (simp add: replace_from.simps)

lemma collapse_run:
  assumes "v = [] \<or> hd v \<noteq> CHR 0x0A"
  shows "replace_from nl_runs ''\<newline>\<newline>'' sn (replicate n CHR 0x0A @ v)
     = (if 3 \<le> n then ''\<newline>\<newline>'' else replicate n CHR 0x0A)
         @ replace_from nl_runs ''\<newline>\<newline>'' (replicate n CHR 0x0A @ sn) v"
proof (cases "3 \<le> n")
  case True
  then obtain k where n: "n = Suc k" by (cases n) auto
  have m: "match_at nl_runs sn (CHR 0x0A # replicate k CHR 0x0A @ v)
      = Some \<lparr>seen = replicate n CHR 0x0A @ sn, rest = v, caps = Map.empty\<rparr>"
    using match_at_long[OF assms True, of sn] by (simp add: n)
  have e: "expand 0 mt ''\<newline>\<newline>'' = ''\<newline>\<newline>''" for mt by (rule expand_plain) simp
  have g: "ngroups (pat nl_runs) = 0" by (simp add: nl_runs_def re_def)
  have "replace_from nl_runs ''\<newline>\<newline>'' sn (CHR 0x0A # replicate k CHR 0x0A @ v)
      = ''\<newline>\<newline>'' @ replace_from nl_runs ''\<newline>\<newline>'' (replicate n CHR 0x0A @ sn) v"
    using True by (simp add: m e g Let_def n replace_from.simps replicate_app_Cons_same)
  then show ?thesis using True by (simp add: n)
next
  case False
  have step: "replace_from nl_runs ''\<newline>\<newline>'' sn' (replicate (Suc j) CHR 0x0A @ v)
      = CHR 0x0A # replace_from nl_runs ''\<newline>\<newline>'' (CHR 0x0A # sn') (replicate j CHR 0x0A @ v)"
    if "Suc j < 3" for j sn'
    using match_at_short[OF assms that, of sn'] by (simp add: replace_from.simps)
  consider "n = 0" | "n = 1" | "n = 2" using False by linarith
  then show ?thesis
  proof cases
    case 1 then show ?thesis by simp
  next
    case 2 then show ?thesis using step[of 0 sn] by simp
  next
    case 3
    then have n: "n = Suc (Suc 0)" by simp
    show ?thesis unfolding n using step[of 1 sn] step[of 0 "CHR 0x0A # sn"] by simp
  qed
qed

lemma run_split:
  "\<exists>n v. s = replicate n c @ v \<and> (v = [] \<or> hd v \<noteq> c) \<and> (s \<noteq> [] \<and> hd s = c \<longrightarrow> 0 < n)"
proof (induction s)
  case Nil
  then show ?case by simp
next
  case (Cons d s)
  show ?case
  proof (cases "d = c")
    case False
    then have "d # s = replicate 0 c @ (d # s) \<and> (d # s = [] \<or> hd (d # s) \<noteq> c)" by simp
    then show ?thesis using False by fastforce
  next
    case True
    from Cons obtain n v where "s = replicate n c @ v" "v = [] \<or> hd v \<noteq> c" by blast
    then have "d # s = replicate (Suc n) c @ v \<and> (v = [] \<or> hd v \<noteq> c) \<and> 0 < Suc n"
      using True by simp
    then show ?thesis by blast
  qed
qed

lemma collapse_context:
  "replace_from nl_runs ''\<newline>\<newline>'' sn s = replace_from nl_runs ''\<newline>\<newline>'' sn' s"
proof (induction "length s" arbitrary: s sn sn' rule: less_induct)
  case less
  show ?case
  proof (cases s)
    case Nil then show ?thesis by (simp add: collapse_end)
  next
    case (Cons c cs)
    show ?thesis
    proof (cases "c = CHR 0x0A")
      case False
      have "replace_from nl_runs ''\<newline>\<newline>'' (c # sn) cs
          = replace_from nl_runs ''\<newline>\<newline>'' (c # sn') cs"
        using Cons by (intro less) simp
      then show ?thesis using False Cons by (simp add: collapse_other)
    next
      case True
      from run_split[of s "CHR 0x0A"] obtain n v where
        s: "s = replicate n CHR 0x0A @ v" and v: "v = [] \<or> hd v \<noteq> CHR 0x0A" and n: "0 < n"
        using True Cons by auto
      have "length v < length s" using n by (simp add: s)
      then have "replace_from nl_runs ''\<newline>\<newline>'' (replicate n CHR 0x0A @ sn) v
          = replace_from nl_runs ''\<newline>\<newline>'' (replicate n CHR 0x0A @ sn') v"
        by (rule less)
      then show ?thesis
        unfolding s collapse_run[OF v] by simp
    qed
  qed
qed


lemma collapse_cat:
  assumes "u = [] \<or> last u \<noteq> CHR 0x0A \<or> v = [] \<or> hd v \<noteq> CHR 0x0A"
  shows "replace_from nl_runs ''\<newline>\<newline>'' sn (u @ v)
     = replace_from nl_runs ''\<newline>\<newline>'' sn u @ replace_from nl_runs ''\<newline>\<newline>'' sn' v"
  using assms
proof (induction "length u" arbitrary: u sn rule: less_induct)
  case less
  note ctx = collapse_context
  show ?case
  proof (cases u)
    case Nil
    then show ?thesis using ctx[of sn v sn'] by (simp add: collapse_end)
  next
    case (Cons c u')
    show ?thesis
    proof (cases "c = CHR 0x0A")
      case False
      have "u' = [] \<or> last u' \<noteq> CHR 0x0A \<or> v = [] \<or> hd v \<noteq> CHR 0x0A"
        using less.prems Cons by (cases "u' = []") auto
      then have "replace_from nl_runs ''\<newline>\<newline>'' (c # sn) (u' @ v)
         = replace_from nl_runs ''\<newline>\<newline>'' (c # sn) u' @ replace_from nl_runs ''\<newline>\<newline>'' sn' v"
        using Cons by (intro less) simp
      then show ?thesis using False Cons by (simp add: collapse_other)
    next
      case True
      from run_split[of u "CHR 0x0A"] obtain k w where
        u: "u = replicate k CHR 0x0A @ w" and w: "w = [] \<or> hd w \<noteq> CHR 0x0A" and k: "0 < k"
        using True Cons by auto
      show ?thesis
      proof (cases "w = []")
        case True
        then have "last u = CHR 0x0A" "u \<noteq> []" using u k by auto
        then have v: "v = [] \<or> hd v \<noteq> CHR 0x0A" using less.prems by blast
        have w0: "[] = [] \<or> hd [] \<noteq> CHR 0x0A" by simp
        show ?thesis
          unfolding u True append_Nil2
          using collapse_run[OF v, of sn k] collapse_run[OF w0, of sn k] ctx[of _ v sn']
          by (simp add: collapse_end)
      next
        case False
        then have wv: "w @ v = [] \<or> hd (w @ v) \<noteq> CHR 0x0A" using w by simp
        have lw: "w = [] \<or> last w \<noteq> CHR 0x0A \<or> v = [] \<or> hd v \<noteq> CHR 0x0A"
          using less.prems u False by simp
        have "length w < length u" using k by (simp add: u)
        then have ih: "replace_from nl_runs ''\<newline>\<newline>'' (replicate k CHR 0x0A @ sn) (w @ v)
           = replace_from nl_runs ''\<newline>\<newline>'' (replicate k CHR 0x0A @ sn) w
               @ replace_from nl_runs ''\<newline>\<newline>'' sn' v"
          using lw by (rule less)
        show ?thesis
          unfolding u append_assoc
          using collapse_run[OF wv, of sn k] collapse_run[OF w, of sn k] ih by simp
      qed
    qed
  qed
qed

lemma collapse_no_newline:
  "CHR 0x0A \<notin> set s \<Longrightarrow> replace_from nl_runs t sn s = s"
  by (induction s arbitrary: sn) (auto simp: collapse_end collapse_other)

text \<open>
  C6 (as amended). The cleanup step replaces every maximal run of three or more line
  breaks, that is, of two or more blank lines, by two line breaks, one blank line, and
  leaves every shorter run as it is: a text without line breaks is unchanged, and where a
  run of \<open>n\<close> line breaks stands between \<open>u\<close>, which does not end in a line break, and \<open>v\<close>,
  which does not start with one, the result is the result for \<open>u\<close>, then two line breaks if
  \<open>3 \<le> n\<close> and the \<open>n\<close> line breaks otherwise, then the result for \<open>v\<close>.
\<close>

theorem collapse_blank_lines_runs:
  "(CHR 0x0A \<notin> set s \<longrightarrow> collapse_blank_lines s = s)
   \<and> ((u = [] \<or> last u \<noteq> CHR 0x0A) \<and> (v = [] \<or> hd v \<noteq> CHR 0x0A) \<longrightarrow>
        collapse_blank_lines (u @ replicate n CHR 0x0A @ v)
          = collapse_blank_lines u
              @ (if 3 \<le> n then ''\<newline>\<newline>'' else replicate n CHR 0x0A)
              @ collapse_blank_lines v)"
proof (intro conjI impI)
  assume "CHR 0x0A \<notin> set s"
  then show "collapse_blank_lines s = s"
    by (simp add: collapse_blank_lines_def replace_all_def collapse_no_newline)
next
  assume a: "(u = [] \<or> last u \<noteq> CHR 0x0A) \<and> (v = [] \<or> hd v \<noteq> CHR 0x0A)"
  then have u: "u = [] \<or> last u \<noteq> CHR 0x0A \<or> replicate n CHR 0x0A @ v = []
      \<or> hd (replicate n CHR 0x0A @ v) \<noteq> CHR 0x0A" and v: "v = [] \<or> hd v \<noteq> CHR 0x0A"
    by auto
  show "collapse_blank_lines (u @ replicate n CHR 0x0A @ v)
          = collapse_blank_lines u
              @ (if 3 \<le> n then ''\<newline>\<newline>'' else replicate n CHR 0x0A)
              @ collapse_blank_lines v"
    unfolding collapse_blank_lines_def replace_all_def
    using collapse_cat[OF u, of "[]" "[]"] collapse_run[OF v, of "[]" n]
      collapse_context[of "replicate n CHR 0x0A @ []" v "[]"]
    by simp
qed

theorem collapse_blank_lines_runs_witness:
  "(''a'' = [] \<or> last ''a'' \<noteq> CHR 0x0A) \<and> (''b'' = [] \<or> hd ''b'' \<noteq> CHR 0x0A)
   \<and> collapse_blank_lines (''a'' @ replicate 4 CHR 0x0A @ ''b'')
       = collapse_blank_lines ''a'' @ ''\<newline>\<newline>'' @ collapse_blank_lines ''b''
   \<and> CHR 0x0A \<notin> set ''a'' \<and> collapse_blank_lines ''a'' = ''a''"
  using collapse_blank_lines_runs[of "''a''" "''a''" "''b''" 4]
  by simp

text \<open>
  C6 as stated fails for a run of two blank lines, which is fewer than three: the text of
  the lines \<^verbatim>\<open>a\<close>, two empty lines and \<^verbatim>\<open>b\<close> is changed, to one empty line between \<^verbatim>\<open>a\<close> and
  \<^verbatim>\<open>b\<close>.
\<close>

theorem collapse_blank_lines_counterexample:
  "split CHR 0x0A ''a\<newline>\<newline>\<newline>b'' = [''a'', [], [], ''b'']
   \<and> collapse_blank_lines ''a\<newline>\<newline>\<newline>b'' = ''a\<newline>\<newline>b''
   \<and> split CHR 0x0A ''a\<newline>\<newline>b'' = [''a'', [], ''b'']"
  by (simp add: collapse_blank_lines_def replace_all_def nl_runs_def re_def match_at_def
      replace_from.simps ms_Rep mk_match_def)


end
